theory Spec2Isabelle
  imports Main
begin

section \<open>The root-archive filesystem of \<open>app/bg/filesystem/index.js\<close>\<close>

text \<open>
  The module keeps one root archive and converges its namespace to a fixed set of
  directories plus one mount per user. Everything it imports (the archive's \<open>pda\<close>
  interface, the profile database, the user directory, address resolution, \<open>slugify\<close>,
  \<open>path.join\<close>, the \<open>PATHS\<close> table) lives outside the file; those parts are
  gathered in an environment record and stay parameters of every function below.
\<close>

subsection \<open>Data\<close>

type_synonym path = string
type_synonym url = string
type_synonym key = string

text \<open>What the code reads off a stat result: \<open>st.isDirectory()\<close> and \<open>st.mount\<close>
  (with \<open>st.mount.key.toString('hex')\<close> as the bound key).\<close>

record node_stat =
  isDirectory :: bool
  mount :: "key option"

text \<open>The \<open>User\<close> objects of the user directory.\<close>

record user =
  label :: string
  url :: url
  isDefault :: bool
  isTemporary :: bool

text \<open>The profile row; a missing, null or empty \<open>url\<close> is falsy in JavaScript.\<close>

record profile =
  profile_url :: "url option"

text \<open>Every call that leaves the module: storage operations, address resolution and
  diagnostics, in the order they are issued.\<close>

datatype event =
    PdaStat path
  | PdaMkdir path
  | PdaMount path key
  | PdaUnmount path
  | PdaReaddir path
  | FromURLToKey url
  | LoggerInfo string
  | LoggerError string
  | ConsoleError string

datatype error =
    NotFound
  | TypeError
  | Failure string
  | Error string

text \<open>The table \<open>PATHS\<close> of \<open>lib/const\<close>, which is not part of the source: its
  entries are parameters.\<close>

record paths =
  DATA :: path
  DATA_NS :: "string \<Rightarrow> path"
  LIBRARY :: path
  SETTINGS :: path
  USERS :: path
  USER :: "string \<Rightarrow> path"
  DEFAULT_USER :: path

text \<open>
  The collaborators. \<open>trash_setup\<close> is the error \<open>trash.setup()\<close> throws
  synchronously, if any: the call is not awaited. \<open>toLowerCase\<close> is \<open>String.prototype.toLowerCase\<close>, which
  follows the Unicode case tables. \<open>fault\<close> is asked before every \<open>mkdir\<close>, \<open>mount\<close>,
  \<open>unmount\<close> and \<open>readdir\<close> with the history so far and says whether the storage
  engine rejects the call, and with which error. \<open>readdir\<close> is the listing the engine
  gives for a directory of a namespace.
\<close>

record env =
  PATHS :: paths
  trash_setup :: "error option"
  db_get :: "error + profile option"
  createNewRootArchive :: "error + url"
  db_run :: "url \<Rightarrow> error option"
  getOrLoadArchive :: "url \<Rightarrow> error + (path \<rightharpoonup> node_stat)"
  users_setup :: "error + user list"
  fromURLToKey :: "url \<Rightarrow> error + key"
  slugify :: "string \<Rightarrow> string"
  toLowerCase :: "string \<Rightarrow> string"
  joinPath :: "path \<Rightarrow> string \<Rightarrow> path"
  fault :: "event list \<Rightarrow> event \<Rightarrow> error option"
  readdir :: "(path \<rightharpoonup> node_stat) \<Rightarrow> path \<Rightarrow> string list"

text \<open>The module's globals \<open>browsingProfile\<close> and \<open>rootArchive\<close> (the namespace of
  the root archive), with the trace of calls issued so far.\<close>

record state =
  browsingProfile :: profile
  rootArchive :: "path \<rightharpoonup> node_stat"
  trace :: "event list"

subsection \<open>The storage engine, as the module consumes it\<close>

text \<open>
  Modelled from the spec: the archive storage engine is outside the source. Its interface
  is \<open>stat(path) \<rightarrow> NodeInfo | not-found-error\<close>, and \<open>mkdir\<close>, \<open>mount\<close>,
  \<open>unmount\<close>, \<open>readdir\<close> each \<open>\<rightarrow> success | error\<close>. A call that fails
  leaves the namespace as it was; a successful \<open>mkdir\<close> puts a directory at the path, a
  successful \<open>mount\<close> puts a mount node bound to the key there, a successful
  \<open>unmount\<close> removes the node.
\<close>

definition emit :: "event \<Rightarrow> state \<Rightarrow> state" where
  "emit e s = s\<lparr>trace := trace s @ [e]\<rparr>"

definition directory_node :: node_stat where
  "directory_node = \<lparr>isDirectory = True, mount = None\<rparr>"

definition mount_node :: "key \<Rightarrow> node_stat" where
  "mount_node k = \<lparr>isDirectory = False, mount = Some k\<rparr>"

definition pda_stat :: "path \<Rightarrow> state \<Rightarrow> state \<times> (error + node_stat)" where
  "pda_stat p s =
     (emit (PdaStat p) s,
      case rootArchive s p of None \<Rightarrow> Inl NotFound | Some st \<Rightarrow> Inr st)"

definition pda_mkdir :: "env \<Rightarrow> path \<Rightarrow> state \<Rightarrow> state \<times> (error + unit)" where
  "pda_mkdir E p s =
     (case fault E (trace s) (PdaMkdir p) of
        Some e \<Rightarrow> (emit (PdaMkdir p) s, Inl e)
      | None \<Rightarrow>
          (emit (PdaMkdir p) (s\<lparr>rootArchive := (rootArchive s)(p \<mapsto> directory_node)\<rparr>),
           Inr ()))"

definition pda_mount :: "env \<Rightarrow> path \<Rightarrow> key \<Rightarrow> state \<Rightarrow> state \<times> (error + unit)" where
  "pda_mount E p k s =
     (case fault E (trace s) (PdaMount p k) of
        Some e \<Rightarrow> (emit (PdaMount p k) s, Inl e)
      | None \<Rightarrow>
          (emit (PdaMount p k) (s\<lparr>rootArchive := (rootArchive s)(p \<mapsto> mount_node k)\<rparr>),
           Inr ()))"

definition pda_unmount :: "env \<Rightarrow> path \<Rightarrow> state \<Rightarrow> state \<times> (error + unit)" where
  "pda_unmount E p s =
     (case fault E (trace s) (PdaUnmount p) of
        Some e \<Rightarrow> (emit (PdaUnmount p) s, Inl e)
      | None \<Rightarrow>
          (emit (PdaUnmount p) (s\<lparr>rootArchive := (rootArchive s)(p := None)\<rparr>), Inr ()))"

definition pda_readdir :: "env \<Rightarrow> path \<Rightarrow> state \<Rightarrow> state \<times> (error + string list)" where
  "pda_readdir E p s =
     (case fault E (trace s) (PdaReaddir p) of
        Some e \<Rightarrow> (emit (PdaReaddir p) s, Inl e)
      | None \<Rightarrow> (emit (PdaReaddir p) s, Inr (readdir E (rootArchive s) p)))"

text \<open>The call \<open>dat.archives.fromURLToKey(url, true)\<close>.\<close>

definition resolve :: "env \<Rightarrow> url \<Rightarrow> state \<Rightarrow> state \<times> (error + key)" where
  "resolve E u s = (emit (FromURLToKey u) s, fromURLToKey E u)"

subsection \<open>Exported getters\<close>

definition get :: "state \<Rightarrow> (path \<rightharpoonup> node_stat)" where
  "get s = rootArchive s"

definition isRootUrl :: "url \<Rightarrow> state \<Rightarrow> bool" where
  "isRootUrl u s = (Some u = profile_url (browsingProfile s))"

subsection \<open>Internal methods\<close>

text \<open>\<open>stat\<close>: any error of the engine's stat becomes \<open>null\<close>.\<close>

definition stat :: "path \<Rightarrow> state \<Rightarrow> state \<times> node_stat option" where
  "stat p s =
     (case pda_stat p s of
        (s1, Inl e) \<Rightarrow> (s1, None)
      | (s1, Inr st) \<Rightarrow> (s1, Some st))"

text \<open>\<open>ensureDir\<close>: the body of the \<open>try\<close>, then the \<open>catch\<close>.\<close>

definition ensureDir_try :: "env \<Rightarrow> path \<Rightarrow> state \<Rightarrow> state \<times> (error + unit)" where
  "ensureDir_try E p s =
     (case stat p s of
        (s1, None) \<Rightarrow> pda_mkdir E p (emit (LoggerInfo (''Creating directory '' @ p)) s1)
      | (s1, Some st) \<Rightarrow>
          if \<not> isDirectory st
          then (emit (LoggerError
                  ''Warning! Filesystem expects a folder but an unexpected file exists at this location.'') s1,
                Inr ())
          else (s1, Inr ()))"

definition ensureDir :: "env \<Rightarrow> path \<Rightarrow> state \<Rightarrow> state" where
  "ensureDir E p s =
     (case ensureDir_try E p s of
        (s1, Inl e) \<Rightarrow> emit (LoggerError ''Filesystem failed to make directory'') s1
      | (s1, Inr _) \<Rightarrow> s1)"

text \<open>\<open>ensureMount\<close>: probe, resolve, then one of four branches.\<close>

definition ensureMount_try :: "env \<Rightarrow> path \<Rightarrow> url \<Rightarrow> state \<Rightarrow> state \<times> (error + unit)" where
  "ensureMount_try E p u s =
     (case stat p s of (s1, st) \<Rightarrow>
      (case resolve E u s1 of
         (s2, Inl e) \<Rightarrow> (s2, Inl e)
       | (s2, Inr k) \<Rightarrow>
          (case st of
             None \<Rightarrow> pda_mount E p k (emit (LoggerInfo (''Adding mount '' @ p)) s2)
           | Some nd \<Rightarrow>
              (case mount nd of
                 Some old \<Rightarrow>
                   if old \<noteq> k
                   then (case pda_unmount E p (emit (LoggerInfo ''Reassigning mount'') s2) of
                           (s3, Inl e) \<Rightarrow> (s3, Inl e)
                         | (s3, Inr _) \<Rightarrow> pda_mount E p k s3)
                   else (s2, Inr ())
               | None \<Rightarrow>
                   (emit (LoggerError
                      ''Warning! Filesystem expects a mount but an unexpected file exists at this location.'') s2,
                    Inr ())))))"

definition ensureMount :: "env \<Rightarrow> path \<Rightarrow> url \<Rightarrow> state \<Rightarrow> state" where
  "ensureMount E p u s =
     (case ensureMount_try E p u s of
        (s1, Inl e) \<Rightarrow> emit (LoggerError ''Filesystem failed to mount archive'') s1
      | (s1, Inr _) \<Rightarrow> s1)"

definition ensureUnmount_try :: "env \<Rightarrow> path \<Rightarrow> state \<Rightarrow> state \<times> (error + unit)" where
  "ensureUnmount_try E p s =
     (case stat p s of
        (s1, None) \<Rightarrow> (s1, Inr ())
      | (s1, Some nd) \<Rightarrow>
          (case mount nd of
             None \<Rightarrow> (s1, Inr ())
           | Some old \<Rightarrow> pda_unmount E p (emit (LoggerInfo ''Removing mount'') s1)))"

definition ensureUnmount :: "env \<Rightarrow> path \<Rightarrow> state \<Rightarrow> state" where
  "ensureUnmount E p s =
     (case ensureUnmount_try E p s of
        (s1, Inl e) \<Rightarrow> emit (LoggerError ''Filesystem failed to unmount archive'') s1
      | (s1, Inr _) \<Rightarrow> s1)"

subsection \<open>Name allocation\<close>

text \<open>
  Titles, names and paths are the UTF-8 bytes of the JavaScript strings.
  \<open>String.prototype.trim\<close> removes, at both ends, every code point of ECMAScript's
  WhiteSpace and LineTerminator: U+0009 to U+000D, U+0020, U+00A0, U+1680, U+2000 to
  U+200A, U+2028, U+2029, U+202F, U+205F, U+3000 and U+FEFF, listed here in UTF-8.
\<close>

definition whiteSpace :: "string list" where
  "whiteSpace =
     [[CHR 0x09], [CHR 0x0A], [CHR 0x0B], [CHR 0x0C], [CHR 0x0D], [CHR 0x20],
      [CHR 0xC2, CHR 0xA0], [CHR 0xE1, CHR 0x9A, CHR 0x80],
      [CHR 0xE2, CHR 0x80, CHR 0x80], [CHR 0xE2, CHR 0x80, CHR 0x81],
      [CHR 0xE2, CHR 0x80, CHR 0x82], [CHR 0xE2, CHR 0x80, CHR 0x83],
      [CHR 0xE2, CHR 0x80, CHR 0x84], [CHR 0xE2, CHR 0x80, CHR 0x85],
      [CHR 0xE2, CHR 0x80, CHR 0x86], [CHR 0xE2, CHR 0x80, CHR 0x87],
      [CHR 0xE2, CHR 0x80, CHR 0x88], [CHR 0xE2, CHR 0x80, CHR 0x89],
      [CHR 0xE2, CHR 0x80, CHR 0x8A], [CHR 0xE2, CHR 0x80, CHR 0xA8],
      [CHR 0xE2, CHR 0x80, CHR 0xA9], [CHR 0xE2, CHR 0x80, CHR 0xAF],
      [CHR 0xE2, CHR 0x81, CHR 0x9F], [CHR 0xE3, CHR 0x80, CHR 0x80],
      [CHR 0xEF, CHR 0xBB, CHR 0xBF]]"

text \<open>Remove the sequences of \<open>ws\<close> from the front of \<open>t\<close> for as long as one of
  them starts it.\<close>

function strip_leading :: "string list \<Rightarrow> string \<Rightarrow> string" where
  "strip_leading ws t =
     (case find (\<lambda>w. w \<noteq> [] \<and> take (length w) t = w) ws of
        None \<Rightarrow> t
      | Some w \<Rightarrow> strip_leading ws (drop (length w) t))"
  by pat_completeness auto
termination
proof (relation "measure (\<lambda>(ws, t). length t)")
  show "wf (measure (\<lambda>(ws, t). length t))" by simp
next
  fix ws :: "string list" and t w :: string
  assume "find (\<lambda>w. w \<noteq> [] \<and> take (length w) t = w) ws = Some w"
  then have w: "w \<noteq> []" and tk: "take (length w) t = w"
    by (auto simp add: find_Some_iff)
  from arg_cong [OF tk, of length] have "length w \<le> length t"
    by simp
  with w show "((ws, drop (length w) t), (ws, t)) \<in> measure (\<lambda>(ws, t). length t)"
    by (cases w) auto
qed

declare strip_leading.simps [simp del]

definition trim :: "string \<Rightarrow> string" where
  "trim t = rev (strip_leading (map rev whiteSpace) (rev (strip_leading whiteSpace t)))"

text \<open>The decimal rendering of the counter in the template string
  \<open>`${basename}-${i}`\<close>.\<close>

definition digit :: "nat \<Rightarrow> char" where
  "digit d = ''0123456789'' ! d"

function string_of_nat :: "nat \<Rightarrow> string" where
  "string_of_nat n =
     (if n < 10 then [digit n] else string_of_nat (n div 10) @ [digit (n mod 10)])"
  by pat_completeness auto
termination
  by (relation "measure (\<lambda>n. n)") auto

declare string_of_nat.simps [simp del]

text \<open>\<open>slugify((title || '').trim() || 'untitled').toLowerCase()\<close>.\<close>

definition basename_of :: "env \<Rightarrow> string \<Rightarrow> string" where
  "basename_of E title =
     toLowerCase E (slugify E (if trim title = [] then ''untitled'' else trim title))"

text \<open>\<open>(i === 1) ? basename : `${basename}-${i}`\<close>.\<close>

definition candidate :: "string \<Rightarrow> nat \<Rightarrow> string" where
  "candidate basename i = (if i = 1 then basename else basename @ ''-'' @ string_of_nat i)"

text \<open>The loop \<open>for (let i = 1; i < 1e9; i++)\<close>, entered at counter \<open>i\<close>; falling out
  of it throws.\<close>

function getAvailableName_from ::
  "env \<Rightarrow> path \<Rightarrow> string \<Rightarrow> string \<Rightarrow> nat \<Rightarrow> state \<Rightarrow> state \<times> (error + string)" where
  "getAvailableName_from E containingPath title basename i s =
     (if i < 1000000000
      then (case stat (joinPath E containingPath (candidate basename i)) s of
              (s1, None) \<Rightarrow> (s1, Inr (candidate basename i))
            | (s1, Some st) \<Rightarrow>
                getAvailableName_from E containingPath title basename (i + 1) s1)
      else (s, Inl (Error (''Unable to find an available name for '' @ title))))"
  by pat_completeness auto
termination
  by (relation "measure (\<lambda>(E, c, t, b, i, s). 1000000000 - i)") auto

declare getAvailableName_from.simps [simp del]

definition getAvailableName :: "env \<Rightarrow> path \<Rightarrow> string \<Rightarrow> state \<Rightarrow> state \<times> (error + string)" where
  "getAvailableName E containingPath title s =
     getAvailableName_from E containingPath title (basename_of E title) 1 s"

subsection \<open>Exported operations\<close>

definition addUser :: "env \<Rightarrow> user \<Rightarrow> state \<Rightarrow> state" where
  "addUser E u s =
     (let s1 = ensureMount E (USER (PATHS E) (label u)) (url u) s
      in if isDefault u then ensureMount E (DEFAULT_USER (PATHS E)) (url u) s1 else s1)"

definition removeUser :: "env \<Rightarrow> user \<Rightarrow> state \<Rightarrow> state" where
  "removeUser E u s = ensureUnmount E (USER (PATHS E) (label u)) s"

text \<open>\<open>addToLibrary\<close> has no \<open>return\<close>: when it does not throw, its promise resolves
  to \<open>undefined\<close>, written \<open>None\<close> here.\<close>

definition addToLibrary :: "env \<Rightarrow> url \<Rightarrow> string \<Rightarrow> state \<Rightarrow> state \<times> (error + string option)" where
  "addToLibrary E u title s =
     (case getAvailableName E (LIBRARY (PATHS E)) title s of
        (s1, Inl e) \<Rightarrow> (s1, Inl e)
      | (s1, Inr name) \<Rightarrow>
          (ensureMount E (joinPath E (LIBRARY (PATHS E)) name) u s1, Inr None))"

subsection \<open>\<open>setup\<close>\<close>

text \<open>The loop over \<open>userList\<close> (lines 76 to 81).\<close>

fun mountUsers :: "env \<Rightarrow> user list \<Rightarrow> state \<Rightarrow> state" where
  "mountUsers E [] s = s"
| "mountUsers E (u # us) s =
     (let s1 = (if isDefault u then ensureMount E (DEFAULT_USER (PATHS E)) (url u) s else s);
          s2 = (if \<not> isTemporary u
                then ensureMount E (USER (PATHS E) (label u)) (url u) s1 else s1)
      in mountUsers E us s2)"

text \<open>The loop over \<open>usersFilenames\<close> (lines 85 to 94); an \<open>unmount\<close> that throws
  leaves the loop.\<close>

fun clearOldMounts :: "env \<Rightarrow> user list \<Rightarrow> string list \<Rightarrow> state \<Rightarrow> state \<times> (error + unit)" where
  "clearOldMounts E userList [] s = (s, Inr ())"
| "clearOldMounts E userList (filename # rest) s =
     (if find (\<lambda>u. label u = filename) userList = None
      then (case stat (USER (PATHS E) filename) s of
              (s1, None) \<Rightarrow> clearOldMounts E userList rest s1
            | (s1, Some st) \<Rightarrow>
                (case mount st of
                   None \<Rightarrow> clearOldMounts E userList rest s1
                 | Some old \<Rightarrow>
                     (case pda_unmount E (USER (PATHS E) filename)
                             (emit (LoggerInfo ''Removing old /users mount'') s1) of
                        (s2, Inl e) \<Rightarrow> (s2, Inl e)
                      | (s2, Inr _) \<Rightarrow> clearOldMounts E userList rest s2)))
      else clearOldMounts E userList rest s)"

text \<open>The body of the \<open>try\<close> in \<open>setup\<close> (lines 67 to 94).\<close>

definition ensureCommonDirs :: "env \<Rightarrow> state \<Rightarrow> state" where
  "ensureCommonDirs E s =
     (let P = PATHS E;
          s1 = ensureDir E (DATA P) s;
          s2 = ensureDir E (DATA_NS P ''unwalled.garden'') s1;
          s3 = ensureDir E (joinPath E (DATA_NS P ''unwalled.garden'') ''bookmarks'') s2;
          s4 = ensureDir E (LIBRARY P) s3;
          s5 = ensureDir E (SETTINGS P) s4
      in ensureDir E (USERS P) s5)"

definition setup_try :: "env \<Rightarrow> user list \<Rightarrow> state \<Rightarrow> state \<times> (error + unit)" where
  "setup_try E userList s =
     (let s1 = mountUsers E userList (ensureCommonDirs E s)
      in case pda_readdir E (USERS (PATHS E)) s1 of
           (s2, Inl e) \<Rightarrow> (s2, Inl e)
         | (s2, Inr usersFilenames) \<Rightarrow> clearOldMounts E userList usersFilenames s2)"

text \<open>The \<open>try\<close> with its \<open>catch\<close>.\<close>

definition enforceRootStructure :: "env \<Rightarrow> user list \<Rightarrow> state \<Rightarrow> state" where
  "enforceRootStructure E userList s =
     (case setup_try E userList s of
        (s1, Inl e) \<Rightarrow>
          emit (LoggerError ''Error while constructing the root archive'')
            (emit (ConsoleError ''Error while constructing the root archive'') s1)
      | (s1, Inr _) \<Rightarrow> s1)"

text \<open>Lines 47 to 62: everything before the \<open>try\<close>. The result is the profile, the
  loaded namespace, the user list and the diagnostics so far.\<close>

definition falsy :: "url option \<Rightarrow> bool" where
  "falsy u = (case u of None \<Rightarrow> True | Some v \<Rightarrow> v = [])"

definition loadRoot :: "env \<Rightarrow> error + (state \<times> user list)" where
  "loadRoot E =
     (case trash_setup E of
        Some e \<Rightarrow> Inl e
      | None \<Rightarrow>
     (case db_get E of
        Inl e \<Rightarrow> Inl e
      | Inr None \<Rightarrow> Inl TypeError
      | Inr (Some prof) \<Rightarrow>
     (case (if falsy (profile_url prof)
            then (case createNewRootArchive E of
                    Inl e \<Rightarrow> Inl e
                  | Inr au \<Rightarrow>
                      (case db_run E au of
                         Some e \<Rightarrow> Inl e
                       | None \<Rightarrow> Inr (au, [LoggerInfo ''Root archive created''])))
            else Inr (the (profile_url prof), [])) of
        Inl e \<Rightarrow> Inl e
      | Inr (ru, tr) \<Rightarrow>
     (case getOrLoadArchive E ru of
        Inl e \<Rightarrow> Inl e
      | Inr root \<Rightarrow>
     (case users_setup E of
        Inl e \<Rightarrow> Inl e
      | Inr userList \<Rightarrow>
          Inr (\<lparr>browsingProfile = prof\<lparr>profile_url := Some ru\<rparr>,
                rootArchive = root, trace = tr\<rparr>, userList))))))"

text \<open>The exported \<open>setup\<close> (\<open>setup_fs\<close> here, the plain name being a keyword of
  Isabelle); a rejected promise is \<open>Inl\<close>.\<close>

definition setup_fs :: "env \<Rightarrow> error + state" where
  "setup_fs E =
     (case loadRoot E of
        Inl e \<Rightarrow> Inl e
      | Inr (s, userList) \<Rightarrow>
          Inr (enforceRootStructure E userList (emit (LoggerInfo ''Loading root archive'') s)))"

subsection \<open>A sample environment\<close>

text \<open>
  One instance of the parameters, on which the functions are run in the closed examples
  below: the owners root is \<open>/owners\<close>, an owner's path is \<open>/owners/<label>\<close>,
  every address resolves to itself, no storage call fails, and the listing of a directory
  is read off the namespace for a few known names.
\<close>

text \<open>
  Modelled from the spec: the \<open>slugify\<close> package is not part of the source. The spec
  asks for a URL/path-safe slug and gives \<open>my-post\<close> for the title "My Post!";
  \<open>sample_slugify\<close> keeps letters, digits and hyphens, drops every other character
  and turns a space into a hyphen. Lower-casing is done by the caller, as in the source.
\<close>

definition sample_slugify :: "string \<Rightarrow> string" where
  "sample_slugify t =
     map (\<lambda>c. if c = CHR '' '' then CHR ''-'' else c)
       (filter (\<lambda>c. c = CHR '' '' \<or> c = CHR ''-'' \<or>
                    c \<in> set ''0123456789abcdefghijklmnopqrstuvwxyzABCDEFGHIJKLMNOPQRSTUVWXYZ'') t)"

text \<open>For the parameter \<open>toLowerCase\<close> the sample environment lowers the letters A to
  Z and leaves every other byte; it is applied to ASCII slugs only.\<close>

definition sample_lower_char :: "char \<Rightarrow> char" where
  "sample_lower_char c =
     (case map_of (zip ''ABCDEFGHIJKLMNOPQRSTUVWXYZ'' ''abcdefghijklmnopqrstuvwxyz'') c of
        Some l \<Rightarrow> l
      | None \<Rightarrow> c)"

definition sample_toLowerCase :: "string \<Rightarrow> string" where
  "sample_toLowerCase t = map sample_lower_char t"

definition sample_paths :: paths where
  "sample_paths =
     \<lparr>DATA = ''/.data'', DATA_NS = (\<lambda>ns. ''/.data/'' @ ns), LIBRARY = ''/library'',
      SETTINGS = ''/settings'', USERS = ''/owners'', USER = (\<lambda>l. ''/owners/'' @ l),
      DEFAULT_USER = ''/default-owner''\<rparr>"

definition sample_readdir :: "(path \<rightharpoonup> node_stat) \<Rightarrow> path \<Rightarrow> string list" where
  "sample_readdir m p =
     filter (\<lambda>n. m (p @ ''/'' @ n) \<noteq> None) [''alice'', ''bob'', ''carol'', ''tmp'']"

definition sample_env :: env where
  "sample_env =
     \<lparr>PATHS = sample_paths, trash_setup = None,
      db_get = Inr (Some \<lparr>profile_url = Some ''dat://root''\<rparr>),
      createNewRootArchive = Inr ''dat://root'', db_run = (\<lambda>u. None),
      getOrLoadArchive = (\<lambda>u. Inr Map.empty), users_setup = Inr [],
      fromURLToKey = (\<lambda>u. Inr u), slugify = sample_slugify,
      toLowerCase = sample_toLowerCase,
      joinPath = (\<lambda>a b. a @ ''/'' @ b), fault = (\<lambda>h ev. None),
      readdir = sample_readdir\<rparr>"

definition plain_node :: node_stat where
  "plain_node = \<lparr>isDirectory = False, mount = None\<rparr>"

definition state_of :: "(path \<rightharpoonup> node_stat) \<Rightarrow> state" where
  "state_of m =
     \<lparr>browsingProfile = \<lparr>profile_url = Some ''dat://root''\<rparr>, rootArchive = m, trace = []\<rparr>"

definition alice :: user where
  "alice = \<lparr>label = ''alice'', url = ''dat://a'', isDefault = True, isTemporary = False\<rparr>"


subsection \<open>Notions used in the statements\<close>

text \<open>The path holds a mount; the path holds a mount bound to a key; the path is absent
  or holds a mount.\<close>

definition mount_at :: "(path \<rightharpoonup> node_stat) \<Rightarrow> path \<Rightarrow> bool" where
  "mount_at m p = (case m p of None \<Rightarrow> False | Some st \<Rightarrow> mount st \<noteq> None)"

definition bound_to :: "(path \<rightharpoonup> node_stat) \<Rightarrow> path \<Rightarrow> key \<Rightarrow> bool" where
  "bound_to m p k = (case m p of None \<Rightarrow> False | Some st \<Rightarrow> mount st = Some k)"

definition free_or_mount :: "(path \<rightharpoonup> node_stat) \<Rightarrow> path \<Rightarrow> bool" where
  "free_or_mount m p = (case m p of None \<Rightarrow> True | Some st \<Rightarrow> mount st \<noteq> None)"

text \<open>The number a string of decimal digits denotes.\<close>

definition digit_value :: "char \<Rightarrow> nat" where
  "digit_value c = length (takeWhile (\<lambda>d. d \<noteq> c) ''0123456789'')"

definition decimal_value :: "string \<Rightarrow> nat" where
  "decimal_value ds = foldl (\<lambda>n c. 10 * n + digit_value c) 0 ds"

text \<open>The six paths \<open>setup\<close> hands to \<open>ensureDir\<close>.\<close>

definition common_dirs :: "env \<Rightarrow> path list" where
  "common_dirs E =
     [DATA (PATHS E), DATA_NS (PATHS E) ''unwalled.garden'',
      joinPath E (DATA_NS (PATHS E) ''unwalled.garden'') ''bookmarks'',
      LIBRARY (PATHS E), SETTINGS (PATHS E), USERS (PATHS E)]"






definition bob :: user where
  "bob = \<lparr>label = ''bob'', url = ''dat://b'', isDefault = False, isTemporary = False\<rparr>"

section \<open>Properties\<close>

subsection \<open>Basic facts about the state\<close>

lemma rootArchive_emit [simp]: "rootArchive (emit e s) = rootArchive s"
  by (simp add: emit_def)

lemma trace_emit [simp]: "trace (emit e s) = trace s @ [e]"
  by (simp add: emit_def)

lemma stat_eq: "stat p s = (emit (PdaStat p) s, rootArchive s p)"
  by (simp add: stat_def pda_stat_def split: option.split)

subsection \<open>Nodes of the wrong kind\<close>

text \<open>
  C5. Where the path holds a node that is not a directory, \<open>ensureDir\<close> only probes and
  logs the warning; where it holds a node that is not a mount, \<open>ensureMount\<close> only
  probes, resolves the address and logs one error (the warning, or the failure of the
  resolution). Neither issues \<open>mkdir\<close>, \<open>mount\<close> or \<open>unmount\<close>, and the namespace
  is the same afterwards.
\<close>

theorem wrong_kind_left_untouched:
  "(rootArchive s p = Some st \<and> \<not> isDirectory st \<longrightarrow>
      ensureDir E p s =
        emit (LoggerError
          ''Warning! Filesystem expects a folder but an unexpected file exists at this location.'')
          (emit (PdaStat p) s))
   \<and> (rootArchive s p = Some st \<and> mount st = None \<longrightarrow>
      rootArchive (ensureMount E p u s) = rootArchive s
      \<and> trace (ensureMount E p u s) =
          trace s @ [PdaStat p, FromURLToKey u,
            LoggerError (case fromURLToKey E u of
               Inl e \<Rightarrow> ''Filesystem failed to mount archive''
             | Inr k \<Rightarrow>
               ''Warning! Filesystem expects a mount but an unexpected file exists at this location.'')])"
  by (auto simp add: ensureDir_def ensureDir_try_def ensureMount_def ensureMount_try_def
      stat_eq resolve_def split: sum.split)

theorem wrong_kind_left_untouched_witness:
  "rootArchive (state_of [''/owners/carol'' \<mapsto> plain_node]) ''/owners/carol'' = Some plain_node
   \<and> \<not> isDirectory plain_node \<and> mount plain_node = None
   \<and> ensureDir sample_env ''/owners/carol'' (state_of [''/owners/carol'' \<mapsto> plain_node]) =
       \<lparr>browsingProfile = \<lparr>profile_url = Some ''dat://root''\<rparr>,
        rootArchive = [''/owners/carol'' \<mapsto> plain_node],
        trace = [PdaStat ''/owners/carol'', LoggerError
          ''Warning! Filesystem expects a folder but an unexpected file exists at this location.'']\<rparr>
   \<and> rootArchive (ensureMount sample_env ''/owners/carol'' ''dat://c''
         (state_of [''/owners/carol'' \<mapsto> plain_node])) = [''/owners/carol'' \<mapsto> plain_node]
   \<and> trace (ensureMount sample_env ''/owners/carol'' ''dat://c''
         (state_of [''/owners/carol'' \<mapsto> plain_node])) =
       [PdaStat ''/owners/carol'', FromURLToKey ''dat://c'', LoggerError
          ''Warning! Filesystem expects a mount but an unexpected file exists at this location.'']"
  using wrong_kind_left_untouched
    [of "state_of [''/owners/carol'' \<mapsto> plain_node]" "''/owners/carol''" plain_node
        sample_env "''dat://c''"]
  by (simp add: state_of_def plain_node_def sample_env_def emit_def)

subsection \<open>Reassigning a mount\<close>

text \<open>
  C4, as amended. The path holds a mount bound to key \<open>A\<close> and the address resolves to
  key \<open>B\<close>. If \<open>A = B\<close>, \<open>ensureMount\<close> only probes and resolves. If \<open>A \<noteq> B\<close>, it
  logs the reassignment and issues \<open>unmount\<close> at the path. When the engine accepts the
  \<open>unmount\<close>, it issues \<open>mount\<close> with \<open>B\<close>; when the engine accepts that too, the
  path is bound to \<open>B\<close> afterwards, not to \<open>A\<close>. When the engine rejects the
  \<open>unmount\<close>, no \<open>mount\<close> is issued and the path keeps its mount bound to \<open>A\<close>;
  when it rejects the \<open>mount\<close>, the path is left without a node. In both cases the
  error is logged and the call returns normally.
\<close>

theorem ensureMount_reassigns:
  assumes "rootArchive s p = Some st" and "mount st = Some A"
    and "fromURLToKey E u = Inr B"
    and "h = trace s @ [PdaStat p, FromURLToKey u, LoggerInfo ''Reassigning mount'']"
  shows "(A = B \<longrightarrow> ensureMount E p u s = emit (FromURLToKey u) (emit (PdaStat p) s))
     \<and> (A \<noteq> B \<and> fault E h (PdaUnmount p) = None
          \<and> fault E (h @ [PdaUnmount p]) (PdaMount p B) = None \<longrightarrow>
            trace (ensureMount E p u s) = h @ [PdaUnmount p, PdaMount p B]
            \<and> rootArchive (ensureMount E p u s) = (rootArchive s)(p \<mapsto> mount_node B)
            \<and> mount (mount_node B) = Some B \<and> mount (mount_node B) \<noteq> Some A)
     \<and> (\<forall>e. A \<noteq> B \<and> fault E h (PdaUnmount p) = Some e \<longrightarrow>
            trace (ensureMount E p u s) =
              h @ [PdaUnmount p, LoggerError ''Filesystem failed to mount archive'']
            \<and> rootArchive (ensureMount E p u s) = rootArchive s)
     \<and> (\<forall>e. A \<noteq> B \<and> fault E h (PdaUnmount p) = None
          \<and> fault E (h @ [PdaUnmount p]) (PdaMount p B) = Some e \<longrightarrow>
            trace (ensureMount E p u s) =
              h @ [PdaUnmount p, PdaMount p B,
                   LoggerError ''Filesystem failed to mount archive'']
            \<and> rootArchive (ensureMount E p u s) = (rootArchive s)(p := None))"
  using assms
  by (auto simp add: ensureMount_def ensureMount_try_def stat_eq resolve_def pda_unmount_def
      pda_mount_def mount_node_def)

theorem ensureMount_reassigns_witness:
  "trace (ensureMount sample_env ''/owners/alice'' ''b2''
         (state_of [''/owners/alice'' \<mapsto> mount_node ''a1''])) =
       [PdaStat ''/owners/alice'', FromURLToKey ''b2'', LoggerInfo ''Reassigning mount'',
        PdaUnmount ''/owners/alice'', PdaMount ''/owners/alice'' ''b2'']
   \<and> rootArchive (ensureMount sample_env ''/owners/alice'' ''b2''
         (state_of [''/owners/alice'' \<mapsto> mount_node ''a1''])) ''/owners/alice''
      = Some (mount_node ''b2'')
   \<and> trace (ensureMount sample_env ''/owners/alice'' ''a1''
         (state_of [''/owners/alice'' \<mapsto> mount_node ''a1''])) =
       [PdaStat ''/owners/alice'', FromURLToKey ''a1'']
   \<and> rootArchive (ensureMount
         (sample_env\<lparr>fault := (\<lambda>h ev. if ev = PdaMount ''/owners/alice'' ''b2''
                                     then Some (Failure ''mount refused'') else None)\<rparr>)
         ''/owners/alice'' ''b2''
         (state_of [''/owners/alice'' \<mapsto> mount_node ''a1''])) ''/owners/alice'' = None"
proof -
  let ?s = "state_of [''/owners/alice'' \<mapsto> mount_node ''a1'']"
  let ?h = "trace ?s @ [PdaStat ''/owners/alice'', FromURLToKey ''b2'',
                        LoggerInfo ''Reassigning mount'']"
  let ?F = "sample_env\<lparr>fault := (\<lambda>h ev. if ev = PdaMount ''/owners/alice'' ''b2''
                                     then Some (Failure ''mount refused'') else None)\<rparr>"
  have "trace (ensureMount sample_env ''/owners/alice'' ''b2'' ?s) =
       [PdaStat ''/owners/alice'', FromURLToKey ''b2'', LoggerInfo ''Reassigning mount'',
        PdaUnmount ''/owners/alice'', PdaMount ''/owners/alice'' ''b2'']
     \<and> rootArchive (ensureMount sample_env ''/owners/alice'' ''b2'' ?s) ''/owners/alice''
        = Some (mount_node ''b2'')"
    using ensureMount_reassigns
      [of ?s "''/owners/alice''" "mount_node ''a1''" "''a1''" sample_env "''b2''" "''b2''" ?h]
    by (simp add: state_of_def mount_node_def sample_env_def)
  moreover have "trace (ensureMount sample_env ''/owners/alice'' ''a1'' ?s) =
       [PdaStat ''/owners/alice'', FromURLToKey ''a1'']"
    using ensureMount_reassigns
      [of ?s "''/owners/alice''" "mount_node ''a1''" "''a1''" sample_env "''a1''" "''a1''"
          "trace ?s @ [PdaStat ''/owners/alice'', FromURLToKey ''a1'',
                       LoggerInfo ''Reassigning mount'']"]
    by (simp add: state_of_def mount_node_def sample_env_def)
  moreover have "rootArchive (ensureMount ?F ''/owners/alice'' ''b2'' ?s) ''/owners/alice'' = None"
    using ensureMount_reassigns
      [of ?s "''/owners/alice''" "mount_node ''a1''" "''a1''" ?F "''b2''" "''b2''" ?h]
    by (simp add: state_of_def mount_node_def sample_env_def)
  ultimately show ?thesis by blast
qed

text \<open>
  C4 as stated fails when the engine rejects the \<open>unmount\<close>: the error is caught, no
  \<open>mount\<close> is issued, and the path is still bound to \<open>A\<close> after the call.
\<close>

theorem ensureMount_reassigns_counterexample:
  "rootArchive (state_of [''/owners/alice'' \<mapsto> mount_node ''a1'']) ''/owners/alice''
      = Some (mount_node ''a1'')
   \<and> fromURLToKey sample_env ''b2'' = Inr ''b2'' \<and> ''a1'' \<noteq> ''b2''
   \<and> ensureMount
        (sample_env\<lparr>fault := (\<lambda>h ev. if ev = PdaUnmount ''/owners/alice''
                                    then Some (Failure ''unmount refused'') else None)\<rparr>)
        ''/owners/alice'' ''b2'' (state_of [''/owners/alice'' \<mapsto> mount_node ''a1'']) =
      \<lparr>browsingProfile = \<lparr>profile_url = Some ''dat://root''\<rparr>,
       rootArchive = [''/owners/alice'' \<mapsto> mount_node ''a1''],
       trace = [PdaStat ''/owners/alice'', FromURLToKey ''b2'', LoggerInfo ''Reassigning mount'',
                PdaUnmount ''/owners/alice'',
                LoggerError ''Filesystem failed to mount archive'']\<rparr>"
  by (simp add: ensureMount_def ensureMount_try_def stat_eq resolve_def pda_unmount_def
      state_of_def mount_node_def sample_env_def emit_def)

subsection \<open>Name allocation\<close>

lemma getAvailableName_from_first_free:
  "i \<le> k \<Longrightarrow> k < 1000000000 \<Longrightarrow>
   (\<forall>j. i \<le> j \<and> j < k \<longrightarrow> rootArchive s (joinPath E c (candidate b j)) \<noteq> None) \<Longrightarrow>
   rootArchive s (joinPath E c (candidate b k)) = None \<Longrightarrow>
   getAvailableName_from E c t b i s =
     (s\<lparr>trace := trace s @ map (\<lambda>j. PdaStat (joinPath E c (candidate b j))) [i..<Suc k]\<rparr>,
      Inr (candidate b k))"
proof (induction E c t b i s rule: getAvailableName_from.induct)
  case (1 E c t b i s)
  show ?case
  proof (cases "i = k")
    case True
    with "1.prems" show ?thesis
      by (subst getAvailableName_from.simps) (simp add: stat_eq emit_def)
  next
    case False
    with "1.prems" have lt: "i < k" and occ: "rootArchive s (joinPath E c (candidate b i)) \<noteq> None"
      by auto
    then obtain st where st: "rootArchive s (joinPath E c (candidate b i)) = Some st"
      by auto
    have ih: "getAvailableName_from E c t b (i + 1) (emit (PdaStat (joinPath E c (candidate b i))) s) =
        ((emit (PdaStat (joinPath E c (candidate b i))) s)
           \<lparr>trace := trace (emit (PdaStat (joinPath E c (candidate b i))) s)
              @ map (\<lambda>j. PdaStat (joinPath E c (candidate b j))) [i + 1..<Suc k]\<rparr>,
         Inr (candidate b k))"
      using "1.prems" lt st
      by (intro "1.IH"[where ?x2.0 = st]) (auto simp add: stat_eq)
    have upt: "[i..<Suc k] = i # [i + 1..<Suc k]"
      using lt by (simp add: upt_conv_Cons)
    have step: "getAvailableName_from E c t b i s =
        getAvailableName_from E c t b (i + 1) (emit (PdaStat (joinPath E c (candidate b i))) s)"
      using "1.prems" lt st
      by (subst getAvailableName_from.simps) (simp add: stat_eq)
    show ?thesis
      unfolding step ih upt by (simp add: emit_def)
  qed
qed

lemma getAvailableName_from_exhausted:
  "(\<forall>j. i \<le> j \<and> j < 1000000000 \<longrightarrow> rootArchive s (joinPath E c (candidate b j)) \<noteq> None) \<Longrightarrow>
   getAvailableName_from E c t b i s =
     (s\<lparr>trace := trace s @ map (\<lambda>j. PdaStat (joinPath E c (candidate b j))) [i..<1000000000]\<rparr>,
      Inl (Error (''Unable to find an available name for '' @ t)))"
proof (induction E c t b i s rule: getAvailableName_from.induct)
  case (1 E c t b i s)
  show ?case
  proof (cases "i < 1000000000")
    case False
    then show ?thesis
      by (subst getAvailableName_from.simps) simp
  next
    case True
    with "1.prems" obtain st where st: "rootArchive s (joinPath E c (candidate b i)) = Some st"
      by auto
    have ih: "getAvailableName_from E c t b (i + 1) (emit (PdaStat (joinPath E c (candidate b i))) s) =
        ((emit (PdaStat (joinPath E c (candidate b i))) s)
           \<lparr>trace := trace (emit (PdaStat (joinPath E c (candidate b i))) s)
              @ map (\<lambda>j. PdaStat (joinPath E c (candidate b j))) [i + 1..<1000000000]\<rparr>,
         Inl (Error (''Unable to find an available name for '' @ t)))"
      using "1.prems" True st
      by (intro "1.IH"[where ?x2.0 = st]) (auto simp add: stat_eq)
    have upt: "[i..<1000000000] = i # [i + 1..<1000000000]"
      using True by (simp add: upt_conv_Cons del: upt_rec_numeral)
    have step: "getAvailableName_from E c t b i s =
        getAvailableName_from E c t b (i + 1) (emit (PdaStat (joinPath E c (candidate b i))) s)"
      using True st
      by (subst getAvailableName_from.simps) (simp add: stat_eq)
    show ?thesis
      unfolding step ih by (subst upt) (simp add: emit_def del: upt_rec_numeral)
  qed
qed

lemma getAvailableName_from_Inr:
  "getAvailableName_from E c t b i s = (s1, Inr name) \<Longrightarrow>
   rootArchive s1 = rootArchive s \<and> browsingProfile s1 = browsingProfile s
   \<and> rootArchive s (joinPath E c name) = None"
proof (induction E c t b i s rule: getAvailableName_from.induct)
  case (1 E c t b i s)
  show ?case
  proof (cases "i < 1000000000")
    case False
    with "1.prems" show ?thesis
      by (subst (asm) getAvailableName_from.simps) simp
  next
    case True
    show ?thesis
    proof (cases "rootArchive s (joinPath E c (candidate b i))")
      case None
      with True "1.prems" show ?thesis
        by (subst (asm) getAvailableName_from.simps) (auto simp add: stat_eq emit_def)
    next
      case (Some st)
      with True "1.prems"
      have rec: "getAvailableName_from E c t b (i + 1)
            (emit (PdaStat (joinPath E c (candidate b i))) s) = (s1, Inr name)"
        by (subst (asm) getAvailableName_from.simps) (simp add: stat_eq)
      have "rootArchive s1 = rootArchive (emit (PdaStat (joinPath E c (candidate b i))) s)
          \<and> browsingProfile s1 = browsingProfile (emit (PdaStat (joinPath E c (candidate b i))) s)
          \<and> rootArchive (emit (PdaStat (joinPath E c (candidate b i))) s) (joinPath E c name) = None"
        using True Some rec
        by (intro "1.IH"[where ?x2.0 = st]) (auto simp add: stat_eq)
      then show ?thesis by (simp add: emit_def)
    qed
  qed
qed

lemma string_of_nat_small: "n < 10 \<Longrightarrow> string_of_nat n = [digit n]"
  by (subst string_of_nat.simps) simp

lemma string_of_nat_large: "10 \<le> n \<Longrightarrow> string_of_nat n = string_of_nat (n div 10) @ [digit (n mod 10)]"
  by (subst string_of_nat.simps) simp

lemma string_of_nat_not_Nil: "string_of_nat n \<noteq> []"
  by (subst string_of_nat.simps) simp

lemma digit_eq_1: "n < 10 \<Longrightarrow> digit n = CHR ''1'' \<longleftrightarrow> n = 1"
proof -
  assume "n < 10"
  then have "n \<in> {0, 1, 2, 3, 4, 5, 6, 7, 8, 9}" by auto
  then show ?thesis by (auto simp add: digit_def)
qed

lemma string_of_nat_eq_1: "string_of_nat n = ''1'' \<longleftrightarrow> n = 1"
proof (cases "n < 10")
  case True
  then show ?thesis by (simp add: string_of_nat_small digit_eq_1)
next
  case False
  then have "string_of_nat n = string_of_nat (n div 10) @ [digit (n mod 10)]"
    by (simp add: string_of_nat_large)
  moreover have "string_of_nat (n div 10) \<noteq> []" by (rule string_of_nat_not_Nil)
  ultimately show ?thesis using False by auto
qed

lemma candidate_not_dash_1: "candidate b i \<noteq> b @ ''-1''"
  by (simp add: candidate_def string_of_nat_eq_1)

text \<open>\<open>string_of_nat\<close> writes the decimal numeral: digits only, no leading zero, and the
  number it denotes is the counter.\<close>

lemma digit_cases:
  assumes "n < 10"
  shows "digit_value (digit n) = n" and "digit n \<in> set ''0123456789''"
    and "digit n = CHR ''0'' \<longleftrightarrow> n = 0"
proof -
  from assms have "n \<in> {0, 1, 2, 3, 4, 5, 6, 7, 8, 9}" by auto
  then show "digit_value (digit n) = n" and "digit n \<in> set ''0123456789''"
    and "digit n = CHR ''0'' \<longleftrightarrow> n = 0"
    by (auto simp add: digit_def digit_value_def)
qed

lemma decimal_value_snoc:
  "decimal_value (ds @ [c]) = 10 * decimal_value ds + digit_value c"
  by (simp add: decimal_value_def)

lemma string_of_nat_decimal:
  "decimal_value (string_of_nat n) = n \<and> set (string_of_nat n) \<subseteq> set ''0123456789''
   \<and> (n \<noteq> 0 \<longrightarrow> hd (string_of_nat n) \<noteq> CHR ''0'')"
proof (induction n rule: string_of_nat.induct)
  case (1 n)
  show ?case
  proof (cases "n < 10")
    case True
    then have "string_of_nat n = [digit n]" by (rule string_of_nat_small)
    with digit_cases [OF True] show ?thesis
      by (simp add: decimal_value_def)
  next
    case False
    then have eq: "string_of_nat n = string_of_nat (n div 10) @ [digit (n mod 10)]"
      by (simp add: string_of_nat_large)
    have d: "n mod 10 < 10" by simp
    from False have nz: "n div 10 \<noteq> 0" by simp
    from "1.IH" [OF False]
    have ih: "decimal_value (string_of_nat (n div 10)) = n div 10"
      "set (string_of_nat (n div 10)) \<subseteq> set ''0123456789''"
      "hd (string_of_nat (n div 10)) \<noteq> CHR ''0''"
      using nz by blast+
    have "decimal_value (string_of_nat n) = n"
      unfolding eq decimal_value_snoc ih(1) digit_cases(1) [OF d] by simp
    moreover have "set (string_of_nat n) \<subseteq> set ''0123456789''"
      unfolding eq using ih(2) digit_cases(2) [OF d] by simp
    moreover have "hd (string_of_nat n) \<noteq> CHR ''0''"
      unfolding eq using ih(3) by (simp add: string_of_nat_not_Nil)
    ultimately show ?thesis by blast
  qed
qed

text \<open>A title made of white space only trims to the empty string.\<close>

lemma whiteSpace_prefix_free:
  "\<forall>w \<in> set whiteSpace. \<forall>w' \<in> set whiteSpace. take (length w') (w @ r) = w' \<longrightarrow> w' = w"
  by (simp add: whiteSpace_def)

lemma whiteSpace_not_Nil: "w \<in> set whiteSpace \<Longrightarrow> w \<noteq> []"
  by (auto simp add: whiteSpace_def)

lemma strip_leading_Nil: "strip_leading ws [] = []"
proof -
  have "find (\<lambda>w. w \<noteq> [] \<and> take (length w) [] = w) ws = None"
    by (auto simp add: find_None_iff)
  then show ?thesis by (subst strip_leading.simps) simp
qed

lemma strip_leading_whiteSpace:
  "set wsq \<subseteq> set whiteSpace \<Longrightarrow> strip_leading whiteSpace (concat wsq) = []"
proof (induction wsq)
  case Nil
  show ?case by (simp add: strip_leading_Nil)
next
  case (Cons w wsq)
  let ?t = "w @ concat wsq"
  from Cons.prems have w: "w \<in> set whiteSpace" by simp
  then have "\<exists>x. x \<in> set whiteSpace \<and> x \<noteq> [] \<and> take (length x) ?t = x"
    by (intro exI [of _ w]) (simp add: whiteSpace_not_Nil)
  then obtain w' where f: "find (\<lambda>x. x \<noteq> [] \<and> take (length x) ?t = x) whiteSpace = Some w'"
    by (cases "find (\<lambda>x. x \<noteq> [] \<and> take (length x) ?t = x) whiteSpace")
       (auto simp add: find_None_iff)
  then have "w' \<in> set whiteSpace" and "take (length w') ?t = w'"
    by (auto simp add: find_Some_iff)
  with w whiteSpace_prefix_free have "w' = w" by blast
  with f have "strip_leading whiteSpace ?t = strip_leading whiteSpace (concat wsq)"
    by (subst strip_leading.simps) simp
  with Cons show ?case by simp
qed

lemma trim_whiteSpace: "set wsq \<subseteq> set whiteSpace \<Longrightarrow> trim (concat wsq) = []"
  by (simp add: trim_def strip_leading_whiteSpace strip_leading_Nil)

text \<open>
  C6. \<open>getAvailableName\<close> returns the first candidate whose path is absent. The first
  candidate is the bare slug; the candidate of a counter \<open>k\<close> from 2 on is the slug, a
  hyphen and the decimal numeral of \<open>k\<close> (digits only, no leading zero, denoting \<open>k\<close>),
  so \<open>slug-2\<close>, \<open>slug-3\<close>, ... and never \<open>slug-1\<close>. A title that is empty or consists
  of white space only (any sequence of the code points JavaScript's \<open>trim\<close> removes)
  gives the slug of \<open>untitled\<close> as base name. The slug itself comes from the
  \<open>slugify\<close> package and from \<open>toLowerCase\<close>, parameters here; the closed example
  after the theorem runs the allocations for "My Post!" in the sample environment, where
  the slug is \<open>my-post\<close>.
\<close>

theorem getAvailableName_first_absent:
  assumes "1 \<le> k" and "k < 1000000000"
    and "\<forall>i. 1 \<le> i \<and> i < k \<longrightarrow>
           rootArchive s (joinPath E dir (candidate (basename_of E title) i)) \<noteq> None"
    and "rootArchive s (joinPath E dir (candidate (basename_of E title) k)) = None"
  shows "snd (getAvailableName E dir title s) = Inr (candidate (basename_of E title) k)
     \<and> (k = 1 \<longrightarrow> candidate (basename_of E title) k = basename_of E title)
     \<and> (k \<noteq> 1 \<longrightarrow> candidate (basename_of E title) k =
            basename_of E title @ ''-'' @ string_of_nat k)
     \<and> decimal_value (string_of_nat k) = k
     \<and> set (string_of_nat k) \<subseteq> set ''0123456789''
     \<and> hd (string_of_nat k) \<noteq> CHR ''0''
     \<and> candidate (basename_of E title) k \<noteq> basename_of E title @ ''-1''
     \<and> (\<forall>wsq. set wsq \<subseteq> set whiteSpace \<longrightarrow>
           basename_of E (concat wsq) = toLowerCase E (slugify E ''untitled''))"
proof -
  have "snd (getAvailableName E dir title s) = Inr (candidate (basename_of E title) k)"
    using getAvailableName_from_first_free [OF assms(1) assms(2) assms(3) assms(4), of title]
    by (simp add: getAvailableName_def)
  moreover have "k \<noteq> 0" using assms(1) by simp
  moreover have "\<forall>wsq. set wsq \<subseteq> set whiteSpace \<longrightarrow>
      basename_of E (concat wsq) = toLowerCase E (slugify E ''untitled'')"
    by (simp add: basename_of_def trim_whiteSpace)
  ultimately show ?thesis
    using string_of_nat_decimal [of k] candidate_not_dash_1 [of "basename_of E title" k]
    by (simp add: candidate_def)
qed

lemma ensureMount_absent:
  assumes "rootArchive s p = None" and "fromURLToKey E u = Inr k"
    and "\<forall>h. fault E h (PdaMount p k) = None"
  shows "ensureMount E p u s =
     s\<lparr>rootArchive := (rootArchive s)(p \<mapsto> mount_node k),
       trace := trace s @ [PdaStat p, FromURLToKey u, LoggerInfo (''Adding mount '' @ p),
                           PdaMount p k]\<rparr>"
  using assms
  by (simp add: ensureMount_def ensureMount_try_def stat_eq resolve_def pda_mount_def emit_def)

lemma addToLibrary_first_free:
  assumes "1 \<le> k" and "k < 1000000000"
    and "\<forall>i. 1 \<le> i \<and> i < k \<longrightarrow>
           rootArchive s (joinPath E (LIBRARY (PATHS E)) (candidate (basename_of E title) i)) \<noteq> None"
    and "rootArchive s (joinPath E (LIBRARY (PATHS E)) (candidate (basename_of E title) k)) = None"
    and "fromURLToKey E u = Inr key"
    and "\<forall>h. fault E h
           (PdaMount (joinPath E (LIBRARY (PATHS E)) (candidate (basename_of E title) k)) key) = None"
  shows "snd (addToLibrary E u title s) = Inr None
     \<and> rootArchive (fst (addToLibrary E u title s)) =
         (rootArchive s)(joinPath E (LIBRARY (PATHS E)) (candidate (basename_of E title) k)
            \<mapsto> mount_node key)"
proof -
  let ?p = "joinPath E (LIBRARY (PATHS E)) (candidate (basename_of E title) k)"
  let ?s1 = "s\<lparr>trace := trace s @ map (\<lambda>j. PdaStat (joinPath E (LIBRARY (PATHS E))
                (candidate (basename_of E title) j))) [1..<Suc k]\<rparr>"
  have alloc: "getAvailableName E (LIBRARY (PATHS E)) title s =
      (?s1, Inr (candidate (basename_of E title) k))"
    unfolding getAvailableName_def
    by (rule getAvailableName_from_first_free [OF assms(1) assms(2) assms(3) assms(4)])
  have "rootArchive ?s1 ?p = None"
    using assms(4) by simp
  from ensureMount_absent [OF this assms(5) assms(6)]
  show ?thesis
    by (simp add: addToLibrary_def alloc)
qed

lemma sample_env_simps [simp]:
  "LIBRARY (PATHS sample_env) = ''/library''"
  "USERS (PATHS sample_env) = ''/owners''"
  "USER (PATHS sample_env) l = ''/owners/'' @ l"
  "DEFAULT_USER (PATHS sample_env) = ''/default-owner''"
  "joinPath sample_env a n = a @ ''/'' @ n"
  "fromURLToKey sample_env u = Inr u"
  "fault sample_env h ev = None"
  "slugify sample_env = sample_slugify"
  "toLowerCase sample_env = sample_toLowerCase"
  by (simp_all add: sample_env_def sample_paths_def)

lemma state_of_simps [simp]:
  "rootArchive (state_of m) = m" "trace (state_of m) = []"
  by (simp_all add: state_of_def)

lemma sample_basename:
  "basename_of sample_env ''My Post!'' = ''my-post''"
  "basename_of sample_env [] = ''untitled''"
  "basename_of sample_env ''  '' = ''untitled''"
  "basename_of sample_env [CHR 0xC2, CHR 0xA0] = ''untitled''"
  by (simp_all add: basename_of_def trim_def whiteSpace_def strip_leading.simps
      sample_toLowerCase_def sample_lower_char_def sample_slugify_def)

lemma sample_candidates:
  "candidate b 1 = b" "candidate b (Suc 0) = b" "candidate b 2 = b @ ''-2''"
  "candidate b 3 = b @ ''-3''" "candidate b 12 = b @ ''-12''"
  by (simp_all add: candidate_def string_of_nat.simps digit_def)

lemma sample_candidates_below_12:
  "1 \<le> i \<and> i < 12 \<Longrightarrow> candidate ''my-post'' i \<noteq> ''my-post-12''"
proof -
  assume "1 \<le> i \<and> i < 12"
  then have "i = 1 \<or> i = 2 \<or> i = 3 \<or> i = 4 \<or> i = 5 \<or> i = 6 \<or> i = 7 \<or> i = 8
      \<or> i = 9 \<or> i = 10 \<or> i = 11"
    by arith
  then show ?thesis
    by (auto simp add: candidate_def string_of_nat.simps digit_def)
qed

theorem getAvailableName_first_absent_witness:
  "snd (getAvailableName sample_env ''/library'' ''My Post!'' (state_of Map.empty)) = Inr ''my-post''
   \<and> snd (getAvailableName sample_env ''/library'' ''My Post!''
        (fst (addToLibrary sample_env ''dat://x'' ''My Post!'' (state_of Map.empty))))
       = Inr ''my-post-2''
   \<and> snd (getAvailableName sample_env ''/library'' ''My Post!''
        (fst (addToLibrary sample_env ''dat://y'' ''My Post!''
           (fst (addToLibrary sample_env ''dat://x'' ''My Post!'' (state_of Map.empty))))))
       = Inr ''my-post-3''
   \<and> snd (getAvailableName sample_env ''/library'' ''My Post!''
        (state_of (\<lambda>p. if p = ''/library/my-post-12'' then None else Some directory_node)))
       = Inr ''my-post-12''
   \<and> snd (getAvailableName sample_env ''/library'' ''  '' (state_of Map.empty)) = Inr ''untitled''
   \<and> snd (getAvailableName sample_env ''/library'' [CHR 0xC2, CHR 0xA0] (state_of Map.empty))
       = Inr ''untitled''"
proof -
  let ?s0 = "state_of Map.empty"
  let ?s1 = "fst (addToLibrary sample_env ''dat://x'' ''My Post!'' ?s0)"
  let ?s2 = "fst (addToLibrary sample_env ''dat://y'' ''My Post!'' ?s1)"
  let ?s12 = "state_of (\<lambda>p. if p = ''/library/my-post-12'' then None else Some directory_node)"
  let ?c = "\<lambda>i. joinPath sample_env ''/library'' (candidate (basename_of sample_env ''My Post!'') i)"
  have r1: "rootArchive ?s1 = [''/library/my-post'' \<mapsto> mount_node ''dat://x'']"
    using addToLibrary_first_free [of 1 ?s0 sample_env "''My Post!''" "''dat://x''" "''dat://x''"]
    by (simp add: sample_basename sample_candidates)
  have occ2: "\<forall>i. 1 \<le> i \<and> i < 2 \<longrightarrow> rootArchive ?s1 (?c i) \<noteq> None"
  proof (intro allI impI)
    fix i :: nat assume "1 \<le> i \<and> i < 2"
    then have "i = 1" by auto
    then show "rootArchive ?s1 (?c i) \<noteq> None"
      by (simp add: r1 sample_basename sample_candidates)
  qed
  have free2: "rootArchive ?s1 (?c 2) = None"
    by (simp add: r1 sample_basename sample_candidates)
  have r2: "rootArchive ?s2 = [''/library/my-post'' \<mapsto> mount_node ''dat://x'',
                               ''/library/my-post-2'' \<mapsto> mount_node ''dat://y'']"
    using addToLibrary_first_free [of 2 ?s1 sample_env "''My Post!''" "''dat://y''" "''dat://y''"]
      occ2 free2
    by (simp add: r1 sample_basename sample_candidates)
  have occ3: "\<forall>i. 1 \<le> i \<and> i < 3 \<longrightarrow> rootArchive ?s2 (?c i) \<noteq> None"
  proof (intro allI impI)
    fix i :: nat assume "1 \<le> i \<and> i < 3"
    then have "i = 1 \<or> i = 2" by auto
    then show "rootArchive ?s2 (?c i) \<noteq> None"
      by (auto simp add: r2 sample_basename sample_candidates)
  qed
  have free3: "rootArchive ?s2 (?c 3) = None"
    by (simp add: r2 sample_basename sample_candidates)
  have occ12: "\<forall>i. 1 \<le> i \<and> i < 12 \<longrightarrow> rootArchive ?s12 (?c i) \<noteq> None"
    by (simp add: sample_basename sample_candidates_below_12)
  have free12: "rootArchive ?s12 (?c 12) = None"
    by (simp add: sample_basename sample_candidates)
  have "snd (getAvailableName sample_env ''/library'' ''My Post!'' ?s0) = Inr ''my-post''"
    using getAvailableName_first_absent
        [where k = 1 and s = "?s0" and E = sample_env and dir = "''/library''"
           and title = "''My Post!''", THEN conjunct1]
    by (simp add: sample_basename sample_candidates)
  moreover have "snd (getAvailableName sample_env ''/library'' ''My Post!'' ?s1) = Inr ''my-post-2''"
    using getAvailableName_first_absent
        [where k = 2 and s = "?s1" and E = sample_env and dir = "''/library''"
           and title = "''My Post!''", THEN conjunct1]
      occ2 free2
    by (simp add: sample_basename sample_candidates)
  moreover have "snd (getAvailableName sample_env ''/library'' ''My Post!'' ?s2) = Inr ''my-post-3''"
    using getAvailableName_first_absent
        [where k = 3 and s = "?s2" and E = sample_env and dir = "''/library''"
           and title = "''My Post!''", THEN conjunct1]
      occ3 free3
    by (simp add: sample_basename sample_candidates)
  moreover have "snd (getAvailableName sample_env ''/library'' ''My Post!'' ?s12) = Inr ''my-post-12''"
    using getAvailableName_first_absent
        [where k = 12 and s = "?s12" and E = sample_env and dir = "''/library''"
           and title = "''My Post!''", THEN conjunct1]
      occ12 free12
    by (simp add: sample_basename sample_candidates)
  moreover have "snd (getAvailableName sample_env ''/library'' ''  '' ?s0) = Inr ''untitled''"
    using getAvailableName_first_absent
        [where k = 1 and s = "?s0" and E = sample_env and dir = "''/library''"
           and title = "''  ''", THEN conjunct1]
    by (simp add: sample_basename sample_candidates)
  moreover have "snd (getAvailableName sample_env ''/library'' [CHR 0xC2, CHR 0xA0] ?s0)
      = Inr ''untitled''"
    using getAvailableName_first_absent
        [where k = 1 and s = "?s0" and E = sample_env and dir = "''/library''"
           and title = "[CHR 0xC2, CHR 0xA0]", THEN conjunct1]
    by (simp add: sample_basename sample_candidates)
  ultimately show ?thesis by blast
qed

subsection \<open>Exhausted allocation\<close>

text \<open>
  C7. The search probes the candidates with counter 1 up to 999999999 and no others.
  When all of them are occupied, \<open>getAvailableName\<close> throws, and \<open>addToLibrary\<close>
  passes the error to its caller: nothing is logged and nothing is mounted, the trace
  holds the probes only. The loop is a total function, so it always ends.
\<close>

theorem allocation_exhausted_propagates:
  assumes "\<forall>i. 1 \<le> i \<and> i < 1000000000 \<longrightarrow>
      rootArchive s (joinPath E (LIBRARY (PATHS E)) (candidate (basename_of E title) i)) \<noteq> None"
  shows "addToLibrary E u title s =
     (s\<lparr>trace := trace s @
          map (\<lambda>i. PdaStat (joinPath E (LIBRARY (PATHS E)) (candidate (basename_of E title) i)))
            [1..<1000000000]\<rparr>,
      Inl (Error (''Unable to find an available name for '' @ title)))"
  using getAvailableName_from_exhausted [OF assms, of title]
  by (simp add: addToLibrary_def getAvailableName_def del: upt_rec_numeral)

theorem allocation_exhausted_propagates_witness:
  "snd (addToLibrary sample_env ''dat://x'' ''My Post!'' (state_of (\<lambda>p. Some directory_node)))
       = Inl (Error ''Unable to find an available name for My Post!'')
   \<and> rootArchive (fst (addToLibrary sample_env ''dat://x'' ''My Post!''
         (state_of (\<lambda>p. Some directory_node)))) = (\<lambda>p. Some directory_node)"
proof -
  have occ: "\<forall>i. 1 \<le> i \<and> i < 1000000000 \<longrightarrow>
      rootArchive (state_of (\<lambda>p. Some directory_node))
        (joinPath sample_env (LIBRARY (PATHS sample_env))
           (candidate (basename_of sample_env ''My Post!'') i)) \<noteq> None"
    by simp
  show ?thesis
    using allocation_exhausted_propagates [OF occ, of "''dat://x''"]
    by (simp del: upt_rec_numeral)
qed

subsection \<open>What \<open>addToLibrary\<close> returns\<close>

text \<open>
  C9 as stated fails: in the sample environment the allocated name is \<open>my-post\<close>, and
  \<open>addToLibrary\<close> does not resolve to it.
\<close>

theorem addToLibrary_returns_name_counterexample:
  "snd (getAvailableName sample_env (LIBRARY (PATHS sample_env)) ''My Post!'' (state_of Map.empty))
     = Inr ''my-post''
   \<and> snd (addToLibrary sample_env ''dat://x'' ''My Post!'' (state_of Map.empty))
     \<noteq> Inr (Some ''my-post'')"
proof -
  have "getAvailableName sample_env (LIBRARY (PATHS sample_env)) ''My Post!'' (state_of Map.empty) =
      ((state_of Map.empty)\<lparr>trace := trace (state_of Map.empty) @
          map (\<lambda>j. PdaStat (joinPath sample_env (LIBRARY (PATHS sample_env))
             (candidate (basename_of sample_env ''My Post!'') j))) [1..<Suc 1]\<rparr>,
       Inr (candidate (basename_of sample_env ''My Post!'') 1))"
    unfolding getAvailableName_def
    by (rule getAvailableName_from_first_free) simp_all
  then show ?thesis
    by (simp add: addToLibrary_def sample_basename sample_candidates)
qed

text \<open>
  C9, as amended. \<open>addToLibrary\<close> allocates the name with \<open>getAvailableName\<close> under
  the library root; the path of that name is absent, and when the address resolves and the
  engine accepts the mount, the path is bound to the key afterwards. The call resolves to
  no value: the allocated name is not handed to the caller.
\<close>

theorem addToLibrary_mounts_allocated_name:
  assumes "getAvailableName E (LIBRARY (PATHS E)) title s = (s1, Inr name)"
    and "fromURLToKey E u = Inr k"
    and "\<forall>h. fault E h (PdaMount (joinPath E (LIBRARY (PATHS E)) name) k) = None"
  shows "rootArchive s (joinPath E (LIBRARY (PATHS E)) name) = None
     \<and> snd (addToLibrary E u title s) = Inr None
     \<and> rootArchive (fst (addToLibrary E u title s)) =
         (rootArchive s)(joinPath E (LIBRARY (PATHS E)) name \<mapsto> mount_node k)"
proof -
  from assms(1) have a: "rootArchive s1 = rootArchive s"
      and b: "rootArchive s (joinPath E (LIBRARY (PATHS E)) name) = None"
    unfolding getAvailableName_def by (auto dest: getAvailableName_from_Inr)
  from a b have "rootArchive s1 (joinPath E (LIBRARY (PATHS E)) name) = None" by simp
  from ensureMount_absent [OF this assms(2) assms(3)] a b
  show ?thesis
    by (simp add: addToLibrary_def assms(1))
qed

theorem addToLibrary_mounts_allocated_name_witness:
  "getAvailableName sample_env (LIBRARY (PATHS sample_env)) ''My Post!'' (state_of Map.empty) =
      ((state_of Map.empty)\<lparr>trace := [PdaStat ''/library/my-post'']\<rparr>, Inr ''my-post'')
   \<and> fromURLToKey sample_env ''dat://x'' = Inr ''dat://x''
   \<and> (\<forall>h. fault sample_env h
         (PdaMount (joinPath sample_env (LIBRARY (PATHS sample_env)) ''my-post'') ''dat://x'') = None)
   \<and> snd (addToLibrary sample_env ''dat://x'' ''My Post!'' (state_of Map.empty)) = Inr None
   \<and> rootArchive (fst (addToLibrary sample_env ''dat://x'' ''My Post!'' (state_of Map.empty))) =
       [''/library/my-post'' \<mapsto> mount_node ''dat://x'']"
proof -
  have "getAvailableName sample_env (LIBRARY (PATHS sample_env)) ''My Post!'' (state_of Map.empty) =
      ((state_of Map.empty)\<lparr>trace := trace (state_of Map.empty) @
          map (\<lambda>j. PdaStat (joinPath sample_env (LIBRARY (PATHS sample_env))
             (candidate (basename_of sample_env ''My Post!'') j))) [1..<Suc 1]\<rparr>,
       Inr (candidate (basename_of sample_env ''My Post!'') 1))"
    unfolding getAvailableName_def
    by (rule getAvailableName_from_first_free) simp_all
  then have alloc: "getAvailableName sample_env (LIBRARY (PATHS sample_env)) ''My Post!''
        (state_of Map.empty) =
      ((state_of Map.empty)\<lparr>trace := [PdaStat ''/library/my-post'']\<rparr>, Inr ''my-post'')"
    by (simp add: sample_basename sample_candidates)
  show ?thesis
    using alloc addToLibrary_mounts_allocated_name [OF alloc, of "''dat://x''" "''dat://x''"]
    by simp
qed

subsection \<open>Removing a user\<close>

text \<open>
  C10. \<open>removeUser\<close> works on the user's own path only: every other path keeps its
  node, the default-alias path among them (also for a user flagged default), and the calls
  issued are the probe of the user's path, at most one \<open>unmount\<close> of it, and
  diagnostics.
\<close>

theorem removeUser_leaves_alias:
  assumes "DEFAULT_USER (PATHS E) \<noteq> USER (PATHS E) (label u)"
  shows "rootArchive (removeUser E u s) (DEFAULT_USER (PATHS E)) = rootArchive s (DEFAULT_USER (PATHS E))
     \<and> (\<forall>q. q \<noteq> USER (PATHS E) (label u) \<longrightarrow> rootArchive (removeUser E u s) q = rootArchive s q)
     \<and> (\<exists>new. trace (removeUser E u s) = trace s @ new
           \<and> set new \<subseteq> {PdaStat (USER (PATHS E) (label u)), LoggerInfo ''Removing mount'',
                 PdaUnmount (USER (PATHS E) (label u)),
                 LoggerError ''Filesystem failed to unmount archive''})"
  using assms
  by (auto simp add: removeUser_def ensureUnmount_def ensureUnmount_try_def stat_eq pda_unmount_def
      split: option.split)

theorem removeUser_leaves_alias_witness:
  "DEFAULT_USER (PATHS sample_env) \<noteq> USER (PATHS sample_env) (label alice)
   \<and> isDefault alice
   \<and> rootArchive (removeUser sample_env alice
        (state_of [''/owners/alice'' \<mapsto> mount_node ''dat://a'',
                   ''/default-owner'' \<mapsto> mount_node ''dat://a''])) ''/default-owner''
      = Some (mount_node ''dat://a'')
   \<and> rootArchive (removeUser sample_env alice
        (state_of [''/owners/alice'' \<mapsto> mount_node ''dat://a'',
                   ''/default-owner'' \<mapsto> mount_node ''dat://a''])) ''/owners/alice''
      = None"
proof -
  let ?s = "state_of [''/owners/alice'' \<mapsto> mount_node ''dat://a'',
                      ''/default-owner'' \<mapsto> mount_node ''dat://a'']"
  have ne: "DEFAULT_USER (PATHS sample_env) \<noteq> USER (PATHS sample_env) (label alice)"
    by (simp add: alice_def)
  have "rootArchive (removeUser sample_env alice ?s) ''/owners/alice'' = None"
    by (simp add: removeUser_def ensureUnmount_def ensureUnmount_try_def stat_eq pda_unmount_def
        alice_def mount_node_def)
  with removeUser_leaves_alias [OF ne, of ?s] ne
  show ?thesis
    by (simp add: alice_def)
qed

subsection \<open>What each operation can change\<close>

lemma browsingProfile_emit [simp]: "browsingProfile (emit e s) = browsingProfile s"
  by (simp add: emit_def)

lemma pda_mount_fst:
  "fst (pda_mount E p k s) =
     emit (PdaMount p k)
       (case fault E (trace s) (PdaMount p k) of
          Some e \<Rightarrow> s | None \<Rightarrow> s\<lparr>rootArchive := (rootArchive s)(p \<mapsto> mount_node k)\<rparr>)"
  by (simp add: pda_mount_def split: option.split)

lemma pda_unmount_fst:
  "fst (pda_unmount E p s) =
     emit (PdaUnmount p)
       (case fault E (trace s) (PdaUnmount p) of
          Some e \<Rightarrow> s | None \<Rightarrow> s\<lparr>rootArchive := (rootArchive s)(p := None)\<rparr>)"
  by (simp add: pda_unmount_def split: option.split)

lemma pda_mkdir_fst:
  "fst (pda_mkdir E p s) =
     emit (PdaMkdir p)
       (case fault E (trace s) (PdaMkdir p) of
          Some e \<Rightarrow> s | None \<Rightarrow> s\<lparr>rootArchive := (rootArchive s)(p \<mapsto> directory_node)\<rparr>)"
  by (simp add: pda_mkdir_def split: option.split)

text \<open>An invariant rule: what the diagnostics and the two storage calls at the path
  preserve from the probe and the resolution on, \<open>ensureMount\<close> establishes.\<close>

lemma ensureMount_preserves:
  assumes init: "Q (emit (FromURLToKey u) (emit (PdaStat p) s))"
    and li: "\<And>t m. Q t \<Longrightarrow> Q (emit (LoggerInfo m) t)"
    and le: "\<And>t m. Q t \<Longrightarrow> Q (emit (LoggerError m) t)"
    and mo: "\<And>t k. Q t \<Longrightarrow> Q (fst (pda_mount E p k t))"
    and un: "\<And>t. Q t \<Longrightarrow> Q (fst (pda_unmount E p t))"
  shows "Q (ensureMount E p u s)"
proof -
  let ?s2 = "emit (FromURLToKey u) (emit (PdaStat p) s)"
  have fin: "\<And>r. Q (fst r) \<Longrightarrow>
      Q (case r of (s1, Inl e) \<Rightarrow> emit (LoggerError ''Filesystem failed to mount archive'') s1
                 | (s1, Inr x) \<Rightarrow> s1)"
    by (auto split: prod.split sum.split intro: le)
  have "Q (fst (ensureMount_try E p u s))"
  proof (cases "fromURLToKey E u")
    case (Inl e)
    then show ?thesis
      by (simp add: ensureMount_try_def stat_eq resolve_def init)
  next
    case (Inr k)
    show ?thesis
    proof (cases "rootArchive s p")
      case None
      with Inr show ?thesis
        by (simp add: ensureMount_try_def stat_eq resolve_def mo li init)
    next
      case (Some nd)
      show ?thesis
      proof (cases "mount nd")
        case None
        with Inr Some show ?thesis
          by (simp add: ensureMount_try_def stat_eq resolve_def le init)
      next
        case (Some old)
        let ?r = "pda_unmount E p (emit (LoggerInfo ''Reassigning mount'') ?s2)"
        have qr: "Q (fst ?r)" by (intro un li init)
        show ?thesis
        proof (cases "old = k")
          case True
          with Inr \<open>rootArchive s p = Some nd\<close> Some show ?thesis
            by (simp add: ensureMount_try_def stat_eq resolve_def init)
        next
          case False
          obtain s3 r3 where r: "?r = (s3, r3)" by (cases ?r)
          with qr have q3: "Q s3" by simp
          show ?thesis
          proof (cases r3)
            case (Inl e)
            with Inr \<open>rootArchive s p = Some nd\<close> Some False r q3 show ?thesis
              by (simp add: ensureMount_try_def stat_eq resolve_def)
          next
            case (Inr x)
            with \<open>fromURLToKey E u = Inr k\<close> \<open>rootArchive s p = Some nd\<close> Some False r mo [OF q3]
            show ?thesis
              by (simp add: ensureMount_try_def stat_eq resolve_def)
          qed
        qed
      qed
    qed
  qed
  from fin [OF this] show ?thesis
    by (simp add: ensureMount_def)
qed

lemma ensureMount_other: "q \<noteq> p \<Longrightarrow> rootArchive (ensureMount E p u s) q = rootArchive s q"
  by (rule ensureMount_preserves [where Q = "\<lambda>t. rootArchive t q = rootArchive s q"])
     (simp_all add: pda_mount_fst pda_unmount_fst split: option.split)

lemma ensureMount_free_or_mount:
  "free_or_mount (rootArchive s) q \<Longrightarrow> free_or_mount (rootArchive (ensureMount E p u s)) q"
  by (rule ensureMount_preserves [where Q = "\<lambda>t. free_or_mount (rootArchive t) q"])
     (auto simp add: pda_mount_fst pda_unmount_fst free_or_mount_def mount_node_def
        split: option.splits)


lemma ensureMount_binds:
  assumes fm: "free_or_mount (rootArchive s) p" and key: "fromURLToKey E u = Inr k"
    and mo: "\<forall>h. fault E h (PdaMount p k) = None" and un: "\<forall>h. fault E h (PdaUnmount p) = None"
  shows "bound_to (rootArchive (ensureMount E p u s)) p k"
proof (cases "rootArchive s p")
  case None
  with key mo show ?thesis
    by (simp add: ensureMount_def ensureMount_try_def stat_eq resolve_def pda_mount_def
        bound_to_def mount_node_def)
next
  case (Some nd)
  with fm obtain old where old: "mount nd = Some old"
    by (auto simp add: free_or_mount_def)
  show ?thesis
  proof (cases "old = k")
    case True
    with Some old key show ?thesis
      by (simp add: ensureMount_def ensureMount_try_def stat_eq resolve_def bound_to_def)
  next
    case False
    with Some old key mo un show ?thesis
      by (simp add: ensureMount_def ensureMount_try_def stat_eq resolve_def pda_mount_def
          pda_unmount_def bound_to_def mount_node_def)
  qed
qed

lemma ensureDir_other: "q \<noteq> p \<Longrightarrow> rootArchive (ensureDir E p s) q = rootArchive s q"
proof (cases "rootArchive s p")
  case None
  assume "q \<noteq> p"
  moreover obtain s1 r where r: "pda_mkdir E p (emit (LoggerInfo (''Creating directory '' @ p))
      (emit (PdaStat p) s)) = (s1, r)"
    by (cases "pda_mkdir E p (emit (LoggerInfo (''Creating directory '' @ p)) (emit (PdaStat p) s))")
  moreover from r have "s1 = fst (pda_mkdir E p (emit (LoggerInfo (''Creating directory '' @ p))
      (emit (PdaStat p) s)))" by simp
  ultimately show ?thesis using None
    by (simp add: ensureDir_def ensureDir_try_def stat_eq pda_mkdir_fst
        split: option.split sum.split)
next
  case (Some st)
  then show ?thesis
    by (simp add: ensureDir_def ensureDir_try_def stat_eq)
qed

lemma ensureCommonDirs_other:
  "q \<notin> set (common_dirs E) \<Longrightarrow> rootArchive (ensureCommonDirs E s) q = rootArchive s q"
  by (simp add: ensureCommonDirs_def common_dirs_def Let_def ensureDir_other)

subsection \<open>The loop over the users\<close>

lemma mountUsers_append:
  "mountUsers E (xs @ ys) s = mountUsers E ys (mountUsers E xs s)"
  by (induction xs arbitrary: s) (simp_all add: Let_def)

lemma mountUsers_other:
  assumes "q \<noteq> DEFAULT_USER (PATHS E) \<or> (\<forall>u \<in> set us. \<not> isDefault u)"
    and "\<forall>u \<in> set us. \<not> isTemporary u \<longrightarrow> q \<noteq> USER (PATHS E) (label u)"
  shows "rootArchive (mountUsers E us s) q = rootArchive s q"
  using assms
proof (induction us arbitrary: s)
  case Nil
  show ?case by simp
next
  case (Cons u us)
  then show ?case
    by (auto simp add: Let_def ensureMount_other)
qed

lemma mountUsers_free_or_mount:
  "free_or_mount (rootArchive s) q \<Longrightarrow> free_or_mount (rootArchive (mountUsers E us s)) q"
  by (induction us arbitrary: s) (simp_all add: Let_def ensureMount_free_or_mount)


lemma mountUsers_binds_at:
  assumes mo: "\<forall>h p k. fault E h (PdaMount p k) = None"
    and un: "\<forall>h p. fault E h (PdaUnmount p) = None"
    and key: "fromURLToKey E (url u) = Inr k"
    and dflt: "DEFAULT_USER (PATHS E) \<notin> range (USER (PATHS E))"
  shows "\<not> isTemporary u \<Longrightarrow> free_or_mount (rootArchive s) (USER (PATHS E) (label u)) \<Longrightarrow>
         (\<forall>v \<in> set ys. \<not> isTemporary v \<longrightarrow> USER (PATHS E) (label v) \<noteq> USER (PATHS E) (label u)) \<Longrightarrow>
         bound_to (rootArchive (mountUsers E (xs @ u # ys) s)) (USER (PATHS E) (label u)) k"
    and "isDefault u \<Longrightarrow> free_or_mount (rootArchive s) (DEFAULT_USER (PATHS E)) \<Longrightarrow>
         (\<forall>v \<in> set ys. \<not> isDefault v) \<Longrightarrow>
         bound_to (rootArchive (mountUsers E (xs @ u # ys) s)) (DEFAULT_USER (PATHS E)) k"
proof -
  let ?D = "DEFAULT_USER (PATHS E)" and ?U = "USER (PATHS E) (label u)"
  let ?a = "mountUsers E xs s"
  let ?s1 = "if isDefault u then ensureMount E ?D (url u) ?a else ?a"
  let ?s2 = "if \<not> isTemporary u then ensureMount E ?U (url u) ?s1 else ?s1"
  have ne: "?D \<noteq> ?U" using dflt by auto
  have whole: "mountUsers E (xs @ u # ys) s = mountUsers E ys ?s2"
    by (simp add: mountUsers_append Let_def)
  {
    assume nt: "\<not> isTemporary u" and fm: "free_or_mount (rootArchive s) ?U"
      and ys: "\<forall>v \<in> set ys. \<not> isTemporary v \<longrightarrow> USER (PATHS E) (label v) \<noteq> ?U"
    have "free_or_mount (rootArchive ?s1) ?U"
      using fm by (simp add: mountUsers_free_or_mount ensureMount_free_or_mount)
    then have "bound_to (rootArchive ?s2) ?U k"
      using nt key mo un by (simp add: ensureMount_binds)
    moreover have "rootArchive (mountUsers E ys ?s2) ?U = rootArchive ?s2 ?U"
      using ne ys by (intro mountUsers_other) auto
    ultimately show "bound_to (rootArchive (mountUsers E (xs @ u # ys) s)) ?U k"
      by (simp add: whole bound_to_def)
  }
  {
    assume d: "isDefault u" and fm: "free_or_mount (rootArchive s) ?D"
      and ys: "\<forall>v \<in> set ys. \<not> isDefault v"
    have "free_or_mount (rootArchive ?a) ?D"
      using fm by (simp add: mountUsers_free_or_mount)
    then have "bound_to (rootArchive ?s1) ?D k"
      using d key mo un by (simp add: ensureMount_binds)
    then have "bound_to (rootArchive ?s2) ?D k"
      using ne by (simp add: bound_to_def ensureMount_other)
    moreover have "rootArchive (mountUsers E ys ?s2) ?D = rootArchive ?s2 ?D"
      using dflt ys by (intro mountUsers_other) auto
    ultimately show "bound_to (rootArchive (mountUsers E (xs @ u # ys) s)) ?D k"
      by (simp add: whole bound_to_def)
  }
qed

subsection \<open>The sweep\<close>

lemma clearOldMounts_other:
  "(\<And>f. f \<in> set names \<Longrightarrow> find (\<lambda>u. label u = f) us = None \<Longrightarrow> q \<noteq> USER (PATHS E) f) \<Longrightarrow>
   rootArchive (fst (clearOldMounts E us names s)) q = rootArchive s q"
proof (induction names arbitrary: s)
  case Nil
  show ?case by simp
next
  case (Cons f names)
  have ih: "\<And>t. rootArchive (fst (clearOldMounts E us names t)) q = rootArchive t q"
    using Cons.prems by (intro Cons.IH) auto
  show ?case
  proof (cases "find (\<lambda>u. label u = f) us = None")
    case False
    then obtain v where "find (\<lambda>u. label u = f) us = Some v" by auto
    then show ?thesis by (simp add: ih)
  next
    case True
    with Cons.prems have ne: "q \<noteq> USER (PATHS E) f" by auto
    let ?r = "pda_unmount E (USER (PATHS E) f)
        (emit (LoggerInfo ''Removing old /users mount'') (emit (PdaStat (USER (PATHS E) f)) s))"
    obtain s2 r2 where r: "?r = (s2, r2)" by (cases ?r)
    then have "s2 = fst ?r" by simp
    then have s2: "rootArchive s2 q = rootArchive s q"
      using ne by (simp add: pda_unmount_fst split: option.split)
    show ?thesis
      using True r s2
      by (simp add: stat_eq ih split: option.split sum.split)
  qed
qed










subsection \<open>\<open>setup\<close> as a whole\<close>

lemma find_label_None: "find (\<lambda>u. label u = f) us = None \<longleftrightarrow> f \<notin> label ` set us"
  by (auto simp add: find_None_iff)

lemma pda_readdir_fst: "fst (pda_readdir E p s) = emit (PdaReaddir p) s"
  by (simp add: pda_readdir_def split: option.split)

lemma setup_try_after_mounts:
  assumes "\<And>f. f \<notin> label ` set us \<Longrightarrow> q \<noteq> USER (PATHS E) f"
  shows "rootArchive (fst (setup_try E us s)) q =
         rootArchive (mountUsers E us (ensureCommonDirs E s)) q"
proof -
  let ?s1 = "mountUsers E us (ensureCommonDirs E s)"
  obtain s2 r where r: "pda_readdir E (USERS (PATHS E)) ?s1 = (s2, r)"
    by (cases "pda_readdir E (USERS (PATHS E)) ?s1")
  then have "s2 = fst (pda_readdir E (USERS (PATHS E)) ?s1)" by simp
  then have s2: "rootArchive s2 = rootArchive ?s1"
    by (simp add: pda_readdir_fst)
  show ?thesis
  proof (cases r)
    case (Inl e)
    with r s2 show ?thesis by (simp add: setup_try_def Let_def)
  next
    case (Inr names)
    have "rootArchive (fst (clearOldMounts E us names s2)) q = rootArchive s2 q"
      using assms by (intro clearOldMounts_other) (simp add: find_label_None)
    with r s2 Inr show ?thesis by (simp add: setup_try_def Let_def)
  qed
qed

lemma enforceRootStructure_rootArchive:
  "rootArchive (enforceRootStructure E us s) = rootArchive (fst (setup_try E us s))"
  by (simp add: enforceRootStructure_def split: prod.split sum.split)

text \<open>Lines 47 to 62 when every step succeeds.\<close>

lemma loadRoot_ok:
  assumes "trash_setup E = None" and "db_get E = Inr (Some prof)"
    and "(\<not> falsy (profile_url prof) \<and> profile_url prof = Some ru)
         \<or> (falsy (profile_url prof) \<and> createNewRootArchive E = Inr ru \<and> db_run E ru = None)"
    and "getOrLoadArchive E ru = Inr root" and "users_setup E = Inr userList"
  shows "loadRoot E =
     Inr (\<lparr>browsingProfile = prof\<lparr>profile_url := Some ru\<rparr>, rootArchive = root,
           trace = (if falsy (profile_url prof) then [LoggerInfo ''Root archive created''] else [])\<rparr>,
          userList)"
  using assms by (auto simp add: loadRoot_def)

lemma setup_fs_ok:
  assumes "trash_setup E = None" and "db_get E = Inr (Some prof)"
    and "(\<not> falsy (profile_url prof) \<and> profile_url prof = Some ru)
         \<or> (falsy (profile_url prof) \<and> createNewRootArchive E = Inr ru \<and> db_run E ru = None)"
    and "getOrLoadArchive E ru = Inr root" and "users_setup E = Inr userList"
  shows "setup_fs E =
     Inr (enforceRootStructure E userList
       \<lparr>browsingProfile = prof\<lparr>profile_url := Some ru\<rparr>, rootArchive = root,
        trace = (if falsy (profile_url prof) then [LoggerInfo ''Root archive created''] else [])
                @ [LoggerInfo ''Loading root archive'']\<rparr>)"
  by (simp add: setup_fs_def loadRoot_ok [OF assms] emit_def)

lemma sample_loads:
  "trash_setup (sample_env\<lparr>users_setup := Inr us, getOrLoadArchive := (\<lambda>u. Inr m)\<rparr>) = None"
  "db_get (sample_env\<lparr>users_setup := Inr us, getOrLoadArchive := (\<lambda>u. Inr m)\<rparr>)
     = Inr (Some \<lparr>profile_url = Some ''dat://root''\<rparr>)"
  "getOrLoadArchive (sample_env\<lparr>users_setup := Inr us, getOrLoadArchive := (\<lambda>u. Inr m)\<rparr>) ru = Inr m"
  "users_setup (sample_env\<lparr>users_setup := Inr us, getOrLoadArchive := (\<lambda>u. Inr m)\<rparr>) = Inr us"
  "PATHS (sample_env\<lparr>users_setup := Inr us, getOrLoadArchive := (\<lambda>u. Inr m)\<rparr>) = sample_paths"
  "fromURLToKey (sample_env\<lparr>users_setup := Inr us, getOrLoadArchive := (\<lambda>u. Inr m)\<rparr>) a = Inr a"
  "fault (sample_env\<lparr>users_setup := Inr us, getOrLoadArchive := (\<lambda>u. Inr m)\<rparr>) h ev = None"
  "joinPath (sample_env\<lparr>users_setup := Inr us, getOrLoadArchive := (\<lambda>u. Inr m)\<rparr>) a n = a @ ''/'' @ n"
  by (simp_all add: sample_env_def)

lemma sample_paths_simps:
  "USER sample_paths = (\<lambda>l. ''/owners/'' @ l)"
  "DEFAULT_USER sample_paths = ''/default-owner''"
  "USERS sample_paths = ''/owners''"
  "DATA sample_paths = ''/.data''"
  "DATA_NS sample_paths ns = ''/.data/'' @ ns"
  "LIBRARY sample_paths = ''/library''"
  "SETTINGS sample_paths = ''/settings''"
  by (simp_all add: sample_paths_def)

lemma ensureMount_wrong_kind:
  "rootArchive s p = Some st \<Longrightarrow> mount st = None \<Longrightarrow>
   rootArchive (ensureMount E p u s) = rootArchive s"
  by (simp add: ensureMount_def ensureMount_try_def stat_eq resolve_def split: sum.split)

subsection \<open>Convergence of \<open>setup\<close>\<close>

text \<open>
  C1, as amended. Suppose the steps before the \<open>try\<close> succeed, the engine accepts
  every \<open>mount\<close> and \<open>unmount\<close>, the addresses of the users resolve, the labels of
  the non-temporary users are distinct, the path table is sound (different labels give
  different paths, and the alias and the six common directories are no user's path), and
  the alias path and every non-temporary user's path are absent or already a mount in the
  loaded archive. Then \<open>setup\<close> completes, every non-temporary user's path is a mount
  bound to the key of that user's address, and the alias path is bound to the key of the
  last user in the list that is flagged default.
\<close>

theorem setup_converges:
  assumes "trash_setup E = None" and "db_get E = Inr (Some prof)"
    and "(\<not> falsy (profile_url prof) \<and> profile_url prof = Some ru)
         \<or> (falsy (profile_url prof) \<and> createNewRootArchive E = Inr ru \<and> db_run E ru = None)"
    and "getOrLoadArchive E ru = Inr root" and "users_setup E = Inr userList"
    and mo: "\<forall>h p k. fault E h (PdaMount p k) = None"
    and un: "\<forall>h p. fault E h (PdaUnmount p) = None"
    and keys: "\<forall>u \<in> set userList. fromURLToKey E (url u) = Inr (key_of u)"
    and labels: "distinct (map label (filter (\<lambda>u. \<not> isTemporary u) userList))"
    and inj: "inj (USER (PATHS E))"
    and dflt: "DEFAULT_USER (PATHS E) \<notin> range (USER (PATHS E))"
    and dirs: "\<forall>d \<in> set (common_dirs E).
                 d \<noteq> DEFAULT_USER (PATHS E) \<and> d \<notin> range (USER (PATHS E))"
    and free_alias: "free_or_mount root (DEFAULT_USER (PATHS E))"
    and free: "\<forall>u \<in> set userList. \<not> isTemporary u \<longrightarrow>
                 free_or_mount root (USER (PATHS E) (label u))"
  shows "\<exists>s. setup_fs E = Inr s
     \<and> (\<forall>u \<in> set userList. \<not> isTemporary u \<longrightarrow>
           bound_to (rootArchive s) (USER (PATHS E) (label u)) (key_of u))
     \<and> (\<forall>xs u ys. userList = xs @ u # ys \<and> isDefault u \<and> (\<forall>v \<in> set ys. \<not> isDefault v) \<longrightarrow>
           bound_to (rootArchive s) (DEFAULT_USER (PATHS E)) (key_of u))"
proof -
  let ?D = "DEFAULT_USER (PATHS E)"
  define s0 where "s0 = \<lparr>browsingProfile = prof\<lparr>profile_url := Some ru\<rparr>, rootArchive = root,
        trace = (if falsy (profile_url prof) then [LoggerInfo ''Root archive created''] else [])
                @ [LoggerInfo ''Loading root archive'']\<rparr>"
  let ?c = "ensureCommonDirs E s0"
  let ?s = "enforceRootStructure E userList s0"
  have res: "setup_fs E = Inr ?s"
    unfolding s0_def by (rule setup_fs_ok [OF assms(1-5)])
  have D_nodir: "?D \<notin> set (common_dirs E)" and U_nodir: "\<And>l. USER (PATHS E) l \<notin> set (common_dirs E)"
    using dirs by auto
  have c_root: "rootArchive ?c ?D = root ?D" "\<And>l. rootArchive ?c (USER (PATHS E) l) = root (USER (PATHS E) l)"
    by (simp_all add: ensureCommonDirs_other D_nodir U_nodir s0_def)
  have c_alias: "free_or_mount (rootArchive ?c) ?D"
    using free_alias by (simp add: c_root free_or_mount_def)
  have final: "\<And>q. (\<And>f. f \<notin> label ` set userList \<Longrightarrow> q \<noteq> USER (PATHS E) f) \<Longrightarrow>
      rootArchive ?s q = rootArchive (mountUsers E userList ?c) q"
    by (simp add: enforceRootStructure_rootArchive setup_try_after_mounts)
  have own: "bound_to (rootArchive ?s) (USER (PATHS E) (label u)) (key_of u)"
    if u: "u \<in> set userList" and nt: "\<not> isTemporary u" for u
  proof -
    let ?U = "USER (PATHS E) (label u)"
    from u obtain xs ys where split: "userList = xs @ u # ys"
      by (auto dest: split_list)
    have notin: "label u \<notin> label ` set (filter (\<lambda>v. \<not> isTemporary v) ys)"
      using labels nt by (simp add: split)
    have "\<forall>v \<in> set ys. \<not> isTemporary v \<longrightarrow> label v \<noteq> label u"
    proof (intro ballI impI)
      fix v assume "v \<in> set ys" and "\<not> isTemporary v"
      then have "label v \<in> label ` set (filter (\<lambda>v. \<not> isTemporary v) ys)" by simp
      with notin show "label v \<noteq> label u" by metis
    qed
    then have later: "\<forall>v \<in> set ys. \<not> isTemporary v \<longrightarrow> USER (PATHS E) (label v) \<noteq> ?U"
      using inj by (auto simp add: inj_def)
    have "free_or_mount (rootArchive ?c) ?U"
      using free u nt by (simp add: c_root free_or_mount_def)
    with keys u nt later
    have "bound_to (rootArchive (mountUsers E (xs @ u # ys) ?c)) ?U (key_of u)"
      by (intro mountUsers_binds_at(1) [OF mo un _ dflt]) auto
    moreover have "rootArchive ?s ?U = rootArchive (mountUsers E userList ?c) ?U"
    proof (rule final)
      fix f assume "f \<notin> label ` set userList"
      with u have "f \<noteq> label u" by auto
      with inj show "?U \<noteq> USER (PATHS E) f" by (auto simp add: inj_def)
    qed
    ultimately show ?thesis by (simp add: split bound_to_def)
  qed
  have al: "bound_to (rootArchive ?s) ?D (key_of u)"
    if split: "userList = xs @ u # ys" and d: "isDefault u" and later: "\<forall>v \<in> set ys. \<not> isDefault v"
    for xs u ys
  proof -
    from split have "u \<in> set userList" by simp
    with keys c_alias d later
    have "bound_to (rootArchive (mountUsers E (xs @ u # ys) ?c)) ?D (key_of u)"
      by (intro mountUsers_binds_at(2) [OF mo un _ dflt]) auto
    moreover have "rootArchive ?s ?D = rootArchive (mountUsers E userList ?c) ?D"
      using dflt by (intro final) auto
    ultimately show ?thesis by (simp add: split bound_to_def)
  qed
  from res own al show ?thesis by blast
qed

lemma sample_common_dirs:
  "common_dirs (sample_env\<lparr>users_setup := Inr us, getOrLoadArchive := (\<lambda>u. Inr m)\<rparr>) =
     [''/.data'', ''/.data/unwalled.garden'', ''/.data/unwalled.garden/bookmarks'',
      ''/library'', ''/settings'', ''/owners'']"
  by (simp add: common_dirs_def sample_loads sample_paths_simps)

theorem setup_converges_witness:
  "case setup_fs (sample_env\<lparr>users_setup := Inr [alice, bob],
        getOrLoadArchive := (\<lambda>u. Inr [''/owners/alice'' \<mapsto> mount_node ''old-key''])\<rparr>) of
     Inl e \<Rightarrow> False
   | Inr s \<Rightarrow>
       bound_to (rootArchive s) ''/owners/alice'' ''dat://a''
       \<and> bound_to (rootArchive s) ''/owners/bob'' ''dat://b''
       \<and> bound_to (rootArchive s) ''/default-owner'' ''dat://a''"
proof -
  let ?m = "[''/owners/alice'' \<mapsto> mount_node ''old-key'']"
  let ?E = "sample_env\<lparr>users_setup := Inr [alice, bob], getOrLoadArchive := (\<lambda>u. Inr ?m)\<rparr>"
  have "\<exists>s. setup_fs ?E = Inr s
     \<and> (\<forall>u \<in> set [alice, bob]. \<not> isTemporary u \<longrightarrow>
           bound_to (rootArchive s) (USER (PATHS ?E) (label u)) (url u))
     \<and> (\<forall>xs u ys. [alice, bob] = xs @ u # ys \<and> isDefault u \<and> (\<forall>v \<in> set ys. \<not> isDefault v) \<longrightarrow>
           bound_to (rootArchive s) (DEFAULT_USER (PATHS ?E)) (url u))"
  proof (rule setup_converges [where prof = "\<lparr>profile_url = Some ''dat://root''\<rparr>"
        and ru = "''dat://root''" and root = ?m])
    show "inj (USER (PATHS ?E))"
      by (simp add: sample_loads sample_paths_simps inj_def)
    show "DEFAULT_USER (PATHS ?E) \<notin> range (USER (PATHS ?E))"
      by (auto simp add: sample_loads sample_paths_simps)
    show "\<forall>d \<in> set (common_dirs ?E).
        d \<noteq> DEFAULT_USER (PATHS ?E) \<and> d \<notin> range (USER (PATHS ?E))"
      by (auto simp add: sample_common_dirs sample_loads sample_paths_simps)
    show "distinct (map label (filter (\<lambda>u. \<not> isTemporary u) [alice, bob]))"
      by (simp add: alice_def bob_def)
    show "\<forall>u \<in> set [alice, bob]. \<not> isTemporary u \<longrightarrow>
        free_or_mount ?m (USER (PATHS ?E) (label u))"
      by (simp add: sample_loads sample_paths_simps alice_def bob_def free_or_mount_def
          mount_node_def)
    show "free_or_mount ?m (DEFAULT_USER (PATHS ?E))"
      by (simp add: sample_loads sample_paths_simps free_or_mount_def)
  qed (simp_all add: sample_loads falsy_def)
  then obtain s where s: "setup_fs ?E = Inr s"
    and own: "\<forall>u \<in> set [alice, bob]. \<not> isTemporary u \<longrightarrow>
           bound_to (rootArchive s) (USER (PATHS ?E) (label u)) (url u)"
    and al: "\<forall>xs u ys. [alice, bob] = xs @ u # ys \<and> isDefault u \<and> (\<forall>v \<in> set ys. \<not> isDefault v) \<longrightarrow>
           bound_to (rootArchive s) (DEFAULT_USER (PATHS ?E)) (url u)"
    by blast
  from own have "bound_to (rootArchive s) ''/owners/alice'' ''dat://a''"
      and "bound_to (rootArchive s) ''/owners/bob'' ''dat://b''"
    by (simp_all add: sample_loads sample_paths_simps alice_def bob_def)
  moreover from al [rule_format, of "[]" alice "[bob]"]
  have "bound_to (rootArchive s) ''/default-owner'' ''dat://a''"
    by (simp add: sample_loads sample_paths_simps alice_def bob_def)
  ultimately show ?thesis by (simp add: s)
qed

text \<open>
  C1 as stated fails where a user's path is occupied by a plain file: \<open>ensureMount\<close>
  leaves the file alone, and after \<open>setup\<close> the path is still not a mount.
\<close>

theorem setup_converges_counterexample:
  "\<not> isTemporary bob \<and>
   (case setup_fs (sample_env\<lparr>users_setup := Inr [bob],
        getOrLoadArchive := (\<lambda>u. Inr [''/owners/bob'' \<mapsto> plain_node])\<rparr>) of
     Inl e \<Rightarrow> False
   | Inr s \<Rightarrow> rootArchive s ''/owners/bob'' = Some plain_node
              \<and> \<not> mount_at (rootArchive s) ''/owners/bob'')"
proof -
  let ?m = "[''/owners/bob'' \<mapsto> plain_node]"
  let ?E = "sample_env\<lparr>users_setup := Inr [bob], getOrLoadArchive := (\<lambda>u. Inr ?m)\<rparr>"
  let ?s0 = "\<lparr>browsingProfile = \<lparr>profile_url = Some ''dat://root''\<rparr>\<lparr>profile_url := Some ''dat://root''\<rparr>,
       rootArchive = ?m,
       trace = (if falsy (profile_url \<lparr>profile_url = Some ''dat://root''\<rparr>)
                then [LoggerInfo ''Root archive created''] else [])
                @ [LoggerInfo ''Loading root archive'']\<rparr>"
  let ?c = "ensureCommonDirs ?E ?s0"
  have res: "setup_fs ?E = Inr (enforceRootStructure ?E [bob] ?s0)"
    by (rule setup_fs_ok) (simp_all add: sample_loads falsy_def)
  have c: "rootArchive ?c ''/owners/bob'' = Some plain_node"
    by (subst ensureCommonDirs_other) (simp_all add: sample_common_dirs)
  have "rootArchive (mountUsers ?E [bob] ?c) = rootArchive ?c"
    using c by (simp add: bob_def sample_loads sample_paths_simps plain_node_def
        ensureMount_wrong_kind [where st = plain_node])
  moreover have "rootArchive (enforceRootStructure ?E [bob] ?s0) ''/owners/bob'' =
      rootArchive (mountUsers ?E [bob] ?c) ''/owners/bob''"
    unfolding enforceRootStructure_rootArchive
    by (rule setup_try_after_mounts) (auto simp add: sample_loads sample_paths_simps bob_def)
  ultimately have "rootArchive (enforceRootStructure ?E [bob] ?s0) ''/owners/bob'' = Some plain_node"
    using c by simp
  then have "case setup_fs ?E of
     Inl e \<Rightarrow> False
   | Inr s \<Rightarrow> rootArchive s ''/owners/bob'' = Some plain_node
              \<and> \<not> mount_at (rootArchive s) ''/owners/bob''"
    unfolding res by (simp add: mount_at_def plain_node_def)
  moreover have "\<not> isTemporary bob" by (simp add: bob_def)
  ultimately show ?thesis by blast
qed

subsection \<open>The mount calls of \<open>setup\<close>\<close>




subsection \<open>The stale-mount sweep\<close>





subsection \<open>Errors in \<open>setup\<close>\<close>

text \<open>
  C8, as amended. When the steps before the \<open>try\<close> succeed (trash setup, profile load,
  creation of the root archive and the update of the profile on the first run, archive
  load, user setup), \<open>setup\<close> completes normally whatever the storage engine, the
  address resolution and the listing do; an error thrown inside the \<open>try\<close> is written to
  the console and the logger and goes no further. An error of a step before the \<open>try\<close>
  is not caught and reaches the caller: one thrown synchronously by \<open>trash.setup()\<close>
  (the call is not awaited), one of the profile query (a missing row fails at
  \<open>browsingProfile.url\<close>), on the first run one of the creation of the root archive or of
  the profile update, one of the archive load, one of the user setup. No other error
  reaches the caller.
\<close>

theorem setup_swallows_construction_errors:
  "(trash_setup E = None \<and> db_get E = Inr (Some prof)
      \<and> ((\<not> falsy (profile_url prof) \<and> profile_url prof = Some ru)
           \<or> (falsy (profile_url prof) \<and> createNewRootArchive E = Inr ru \<and> db_run E ru = None))
      \<and> getOrLoadArchive E ru = Inr root \<and> users_setup E = Inr userList \<longrightarrow>
      (\<exists>s. setup_fs E = Inr s
         \<and> (\<forall>e. snd (setup_try E userList
              \<lparr>browsingProfile = prof\<lparr>profile_url := Some ru\<rparr>, rootArchive = root,
               trace = (if falsy (profile_url prof) then [LoggerInfo ''Root archive created''] else [])
                       @ [LoggerInfo ''Loading root archive'']\<rparr>) = Inl e
            \<longrightarrow> (\<exists>before. trace s =
                   before @ [ConsoleError ''Error while constructing the root archive'',
                             LoggerError ''Error while constructing the root archive'']))))
   \<and> (\<forall>e. trash_setup E = Some e \<longrightarrow> setup_fs E = Inl e)
   \<and> (trash_setup E = None \<longrightarrow>
        (\<forall>e. db_get E = Inl e \<longrightarrow> setup_fs E = Inl e)
      \<and> (db_get E = Inr None \<longrightarrow> setup_fs E = Inl TypeError)
      \<and> (\<forall>p. db_get E = Inr (Some p) \<longrightarrow>
            (\<forall>e. falsy (profile_url p) \<and> createNewRootArchive E = Inl e \<longrightarrow> setup_fs E = Inl e)
          \<and> (\<forall>au e. falsy (profile_url p) \<and> createNewRootArchive E = Inr au
                  \<and> db_run E au = Some e \<longrightarrow> setup_fs E = Inl e)
          \<and> (\<forall>r. (\<not> falsy (profile_url p) \<and> profile_url p = Some r)
                  \<or> (falsy (profile_url p) \<and> createNewRootArchive E = Inr r
                      \<and> db_run E r = None) \<longrightarrow>
                (\<forall>e. getOrLoadArchive E r = Inl e \<longrightarrow> setup_fs E = Inl e)
              \<and> (\<forall>m e. getOrLoadArchive E r = Inr m \<and> users_setup E = Inl e \<longrightarrow>
                    setup_fs E = Inl e))))
   \<and> (\<forall>e. setup_fs E = Inl e \<longleftrightarrow> loadRoot E = Inl e)"
proof (intro conjI)
  show "trash_setup E = None \<and> db_get E = Inr (Some prof)
      \<and> ((\<not> falsy (profile_url prof) \<and> profile_url prof = Some ru)
           \<or> (falsy (profile_url prof) \<and> createNewRootArchive E = Inr ru \<and> db_run E ru = None))
      \<and> getOrLoadArchive E ru = Inr root \<and> users_setup E = Inr userList \<longrightarrow>
      (\<exists>s. setup_fs E = Inr s
         \<and> (\<forall>e. snd (setup_try E userList
              \<lparr>browsingProfile = prof\<lparr>profile_url := Some ru\<rparr>, rootArchive = root,
               trace = (if falsy (profile_url prof) then [LoggerInfo ''Root archive created''] else [])
                       @ [LoggerInfo ''Loading root archive'']\<rparr>) = Inl e
            \<longrightarrow> (\<exists>before. trace s =
                   before @ [ConsoleError ''Error while constructing the root archive'',
                             LoggerError ''Error while constructing the root archive''])))"
  proof (intro impI, elim conjE)
    assume a: "trash_setup E = None" "db_get E = Inr (Some prof)"
      "(\<not> falsy (profile_url prof) \<and> profile_url prof = Some ru)
         \<or> (falsy (profile_url prof) \<and> createNewRootArchive E = Inr ru \<and> db_run E ru = None)"
      "getOrLoadArchive E ru = Inr root" "users_setup E = Inr userList"
    show "\<exists>s. setup_fs E = Inr s
         \<and> (\<forall>e. snd (setup_try E userList
              \<lparr>browsingProfile = prof\<lparr>profile_url := Some ru\<rparr>, rootArchive = root,
               trace = (if falsy (profile_url prof) then [LoggerInfo ''Root archive created''] else [])
                       @ [LoggerInfo ''Loading root archive'']\<rparr>) = Inl e
            \<longrightarrow> (\<exists>before. trace s =
                   before @ [ConsoleError ''Error while constructing the root archive'',
                             LoggerError ''Error while constructing the root archive'']))"
      unfolding setup_fs_ok [OF a]
      by (auto simp add: enforceRootStructure_def split: prod.split sum.split)
  qed
next
  show "\<forall>e. trash_setup E = Some e \<longrightarrow> setup_fs E = Inl e"
    by (simp add: setup_fs_def loadRoot_def)
next
  show "trash_setup E = None \<longrightarrow>
        (\<forall>e. db_get E = Inl e \<longrightarrow> setup_fs E = Inl e)
      \<and> (db_get E = Inr None \<longrightarrow> setup_fs E = Inl TypeError)
      \<and> (\<forall>p. db_get E = Inr (Some p) \<longrightarrow>
            (\<forall>e. falsy (profile_url p) \<and> createNewRootArchive E = Inl e \<longrightarrow> setup_fs E = Inl e)
          \<and> (\<forall>au e. falsy (profile_url p) \<and> createNewRootArchive E = Inr au
                  \<and> db_run E au = Some e \<longrightarrow> setup_fs E = Inl e)
          \<and> (\<forall>r. (\<not> falsy (profile_url p) \<and> profile_url p = Some r)
                  \<or> (falsy (profile_url p) \<and> createNewRootArchive E = Inr r
                      \<and> db_run E r = None) \<longrightarrow>
                (\<forall>e. getOrLoadArchive E r = Inl e \<longrightarrow> setup_fs E = Inl e)
              \<and> (\<forall>m e. getOrLoadArchive E r = Inr m \<and> users_setup E = Inl e \<longrightarrow>
                    setup_fs E = Inl e)))"
    by (auto simp add: setup_fs_def loadRoot_def)
next
  show "\<forall>e. setup_fs E = Inl e \<longleftrightarrow> loadRoot E = Inl e"
    by (auto simp add: setup_fs_def split: sum.split prod.split)
qed

text \<open>
  C8 as stated fails: an error of the profile query is raised before the \<open>try\<close> and
  reaches the caller of \<open>setup\<close>.
\<close>

theorem setup_never_fails_counterexample:
  "setup_fs (sample_env\<lparr>db_get := Inl (Failure ''profile query failed'')\<rparr>)
     = Inl (Failure ''profile query failed'')"
  by (simp add: setup_fs_def loadRoot_def sample_env_def)

lemma setup_try_readdir_fails:
  "\<forall>h. fault E h (PdaReaddir (USERS (PATHS E))) = Some e \<Longrightarrow> snd (setup_try E us s) = Inl e"
  by (simp add: setup_try_def pda_readdir_def Let_def)

theorem setup_swallows_construction_errors_witness:
  "(case setup_fs (sample_env\<lparr>fault := (\<lambda>h ev. if ev = PdaReaddir ''/owners''
         then Some (Failure ''readdir failed'') else None)\<rparr>) of
     Inl e \<Rightarrow> False
   | Inr s \<Rightarrow> last (trace s) = LoggerError ''Error while constructing the root archive'')
   \<and> setup_fs (sample_env\<lparr>users_setup := Inl (Failure ''user setup failed'')\<rparr>)
       = Inl (Failure ''user setup failed'')
   \<and> setup_fs (sample_env\<lparr>trash_setup := Some (Failure ''trash setup failed'')\<rparr>)
       = Inl (Failure ''trash setup failed'')"
proof -
  let ?E = "sample_env\<lparr>fault := (\<lambda>h ev. if ev = PdaReaddir ''/owners''
         then Some (Failure ''readdir failed'') else None)\<rparr>"
  let ?s0 = "\<lparr>browsingProfile = \<lparr>profile_url = Some ''dat://root''\<rparr>\<lparr>profile_url := Some ''dat://root''\<rparr>,
       rootArchive = Map.empty,
       trace = (if falsy (profile_url \<lparr>profile_url = Some ''dat://root''\<rparr>)
                then [LoggerInfo ''Root archive created''] else [])
                @ [LoggerInfo ''Loading root archive'']\<rparr>"
  have thrown: "snd (setup_try ?E [] ?s0) = Inl (Failure ''readdir failed'')"
    by (rule setup_try_readdir_fails) (simp add: sample_env_def sample_paths_def)
  have loads: "trash_setup ?E = None \<and> db_get ?E = Inr (Some \<lparr>profile_url = Some ''dat://root''\<rparr>)
      \<and> ((\<not> falsy (profile_url \<lparr>profile_url = Some ''dat://root''\<rparr>)
            \<and> profile_url \<lparr>profile_url = Some ''dat://root''\<rparr> = Some ''dat://root'')
           \<or> (falsy (profile_url \<lparr>profile_url = Some ''dat://root''\<rparr>)
               \<and> createNewRootArchive ?E = Inr ''dat://root'' \<and> db_run ?E ''dat://root'' = None))
      \<and> getOrLoadArchive ?E ''dat://root'' = Inr Map.empty \<and> users_setup ?E = Inr []"
    by (simp add: sample_env_def falsy_def)
  from setup_swallows_construction_errors
    [of ?E "\<lparr>profile_url = Some ''dat://root''\<rparr>" "''dat://root''" Map.empty "[]",
     THEN conjunct1, THEN mp, OF loads] thrown
  obtain s before where "setup_fs ?E = Inr s"
      and "trace s = before @ [ConsoleError ''Error while constructing the root archive'',
                               LoggerError ''Error while constructing the root archive'']"
    by blast
  then have "case setup_fs ?E of
     Inl e \<Rightarrow> False
   | Inr s \<Rightarrow> last (trace s) = LoggerError ''Error while constructing the root archive''"
    by simp
  moreover have "setup_fs (sample_env\<lparr>users_setup := Inl (Failure ''user setup failed'')\<rparr>)
       = Inl (Failure ''user setup failed'')"
    using setup_swallows_construction_errors
      [of "sample_env\<lparr>users_setup := Inl (Failure ''user setup failed'')\<rparr>"
          "\<lparr>profile_url = Some ''dat://root''\<rparr>" "''dat://root''" Map.empty "[]",
       THEN conjunct2, THEN conjunct2, THEN conjunct1]
    by (simp add: sample_env_def falsy_def)
  moreover have "setup_fs (sample_env\<lparr>trash_setup := Some (Failure ''trash setup failed'')\<rparr>)
       = Inl (Failure ''trash setup failed'')"
    using setup_swallows_construction_errors
      [of "sample_env\<lparr>trash_setup := Some (Failure ''trash setup failed'')\<rparr>"
          "\<lparr>profile_url = Some ''dat://root''\<rparr>" "''dat://root''" Map.empty "[]",
       THEN conjunct2, THEN conjunct1]
    by (simp add: sample_env_def)
  ultimately show ?thesis by blast
qed

end
